theory Spec2Isabelle
  imports Complex_Main "HOL-Library.Log_Nat"
begin

section \<open>A tile-based platformer: level generator, level instances, collision, player physics\<close>

text \<open>
  The development follows \<^verbatim>\<open>src/main.js\<close>. JavaScript numbers are idealised as
  follows: quantities that the source only ever treats as whole numbers (grid indices, the level
  index, counts) are \<open>nat\<close> or \<open>int\<close>; every other number (positions, velocities,
  timers, times) is a \<open>real\<close>, and arithmetic on them is exact: the rounding of IEEE doubles
  is not modelled. The one exception is the counter of the two \<^verbatim>\<open>for\<close> loops of
  \<^verbatim>\<open>collide\<close>, whose bounds come from a position: there \<^verbatim>\<open>row++\<close> and
  \<^verbatim>\<open>col++\<close> round as a double does (see \<open>increment\<close>). The other counted loops run over
  the fixed grid of the generator or over the rows and columns of a map, far below \<open>2 ^ 53\<close>,
  where a double counts exactly. A tile row is a \<open>string\<close>: \<^verbatim>\<open>row.split('')\<close> and
  \<^verbatim>\<open>row.join('')\<close> convert between a string and its array of one-character strings,
  which are the same \<open>char list\<close> here.
\<close>

subsection \<open>Game.generateLevel\<close>

type_synonym tilemap = "string list"

text \<open>\<^verbatim>\<open>map[r][c] = ch\<close> for a cell inside the grid.\<close>

definition setTile :: "tilemap \<Rightarrow> nat \<Rightarrow> nat \<Rightarrow> char \<Rightarrow> tilemap" where
  "setTile m r c ch = m[r := (m ! r)[c := ch]]"

definition gen_height :: nat where
  "gen_height = 12"

definition gen_width :: nat where
  "gen_width = 40"

definition blankMap :: tilemap where
  "blankMap = replicate gen_height (replicate gen_width CHR '' '')"

definition buildGround :: "tilemap \<Rightarrow> tilemap" where
  "buildGround m = fold (\<lambda>c m'. setTile m' (gen_height - 1) c CHR ''#'') [0..<gen_width] m"

definition hazardCol :: "nat \<Rightarrow> nat \<Rightarrow> nat" where
  "hazardCol index h =
     (let col = (index * 7 + h * 11) mod (gen_width - 4) + 2
      in if col = gen_width - 2 then (col + 5) mod (gen_width - 4) + 2 else col)"

definition placeHazards :: "nat \<Rightarrow> tilemap \<Rightarrow> tilemap" where
  "placeHazards index m =
     fold (\<lambda>h m'. setTile m' (gen_height - 2) (hazardCol index h) CHR ''S'')
       [0..<2 + index div 10] m"

definition placeBounce :: "nat \<Rightarrow> tilemap \<Rightarrow> tilemap" where
  "placeBounce index m =
     (if index mod 3 = 0 then setTile m (gen_height - 2) (gen_width div 2) CHR ''B'' else m)"

definition placeBreakables :: "nat \<Rightarrow> tilemap \<Rightarrow> tilemap" where
  "placeBreakables index m =
     fold (\<lambda>b m'. setTile m' (gen_height - 3) ((index * 5 + b * 13) mod (gen_width - 6) + 3) CHR ''X'')
       [0..<index mod 3] m"

definition placeCoins :: "nat \<Rightarrow> tilemap \<Rightarrow> tilemap" where
  "placeCoins index m =
     fold (\<lambda>c m'. setTile m' (gen_height - 4) ((index * 3 + c * 13) mod (gen_width - 6) + 3) CHR ''C'')
       [0..<3] m"

definition placePlatforms :: "nat \<Rightarrow> tilemap \<Rightarrow> tilemap" where
  "placePlatforms index m =
     fold (\<lambda>p m'.
            let col = (index * 6 + p * 12) mod (gen_width - 10) + 5
            in fold (\<lambda>k m''. setTile m'' (gen_height - 5) (col + k) CHR ''#'') [0..<4] m')
       [0..<2 + index mod 3] m"

definition placeMoving :: "nat \<Rightarrow> tilemap \<Rightarrow> tilemap" where
  "placeMoving index m =
     fold (\<lambda>mh m'. setTile m' (gen_height - 4) ((index * 4 + mh * 17) mod (gen_width - 10) + 5) CHR ''H'')
       [0..<index mod 2] m"

definition generateLevel :: "nat \<Rightarrow> tilemap" where
  "generateLevel index =
     placeMoving index
       (placePlatforms index
         (placeCoins index
           (placeBreakables index
             (placeBounce index
               (placeHazards index
                 (setTile (setTile (buildGround blankMap) (gen_height - 2) 1 CHR ''P'')
                    (gen_height - 2) (gen_width - 2) CHR ''F''))))))"

text \<open>Counting and locating tiles of a generated grid.\<close>

definition countTile :: "char \<Rightarrow> tilemap \<Rightarrow> nat" where
  "countTile ch m = length (filter (\<lambda>t. t = ch) (concat m))"

definition tileCols :: "char \<Rightarrow> string \<Rightarrow> nat list" where
  "tileCols ch row = filter (\<lambda>c. row ! c = ch) [0..<length row]"

subsection \<open>Level: construction and parsing\<close>

record coin =
  coin_x :: real
  coin_y :: real
  coin_collected :: bool

record hazard =
  hz_type :: char
  hz_baseX :: real
  hz_y :: real
  hz_x :: real
  hz_width :: real
  hz_height :: real
  hz_range :: real
  hz_dir :: real
  hz_speed :: real

record level =
  l_map :: tilemap
  l_rows :: nat
  l_cols :: nat
  l_tileSize :: real
  l_spawnX :: real
  l_spawnY :: real
  l_coins :: "coin list"
  l_hazards :: "hazard list"

text \<open>
  \<^verbatim>\<open>Math.random()\<close> is a stream of numbers: each call reads the head and leaves the tail.
\<close>

type_synonym rng = "nat \<Rightarrow> real"

text \<open>
  \<^verbatim>\<open>row[x]\<close> for a row that exists: a character, or \<^verbatim>\<open>undefined\<close> (\<open>None\<close>) beyond
  the end of the row.
\<close>

definition cellAt :: "string \<Rightarrow> nat \<Rightarrow> char option" where
  "cellAt row x = (if x < length row then Some (row ! x) else None)"

definition parseCell :: "nat \<Rightarrow> nat \<Rightarrow> level \<times> rng \<Rightarrow> level \<times> rng" where
  "parseCell y x = (\<lambda>(L, r).
     let ts = l_tileSize L in
     case cellAt (l_map L ! y) x of
       None \<Rightarrow> (L, r)
     | Some ch \<Rightarrow>
         if ch = CHR ''P'' then
           (L\<lparr>l_spawnX := real x * ts, l_spawnY := real y * ts,
               l_map := setTile (l_map L) y x CHR '' ''\<rparr>, r)
         else if ch = CHR ''C'' then
           (L\<lparr>l_coins := l_coins L @
                 [\<lparr>coin_x = real x * ts + ts / 2, coin_y = real y * ts + ts / 2,
                   coin_collected = False\<rparr>],
               l_map := setTile (l_map L) y x CHR '' ''\<rparr>, r)
         else if ch = CHR ''H'' then
           (let baseX = real x * ts;
                baseY = real y * ts;
                range = ts * 3;
                speed = 2 + r 0 * 1
            in (L\<lparr>l_hazards := l_hazards L @
                    [\<lparr>hz_type = CHR ''H'', hz_baseX = baseX, hz_y = baseY, hz_x = baseX,
                      hz_width = ts, hz_height = ts, hz_range = range,
                      hz_dir = (if r 1 < 0.5 then - 1 else 1), hz_speed = speed\<rparr>],
                  l_map := setTile (l_map L) y x CHR '' ''\<rparr>,
                \<lambda>n. r (n + 2)))
         else (L, r))"

definition parse :: "level \<times> rng \<Rightarrow> level \<times> rng" where
  "parse = (\<lambda>(L, r).
     fold (\<lambda>y. fold (\<lambda>x. parseCell y x) [0..<l_cols L]) [0..<l_rows L] (L, r))"

text \<open>
  \<^verbatim>\<open>new Level(mapArray)\<close>. With no rows, \<^verbatim>\<open>this.map[0].length\<close> reads a property of
  \<^verbatim>\<open>undefined\<close> and throws: \<open>None\<close>.
\<close>

definition Level_new :: "tilemap \<Rightarrow> rng \<Rightarrow> level option" where
  "Level_new mapArray r =
     (case mapArray of
        [] \<Rightarrow> None
      | row0 # _ \<Rightarrow>
          Some (fst (parse
            (\<lparr>l_map = mapArray, l_rows = length mapArray, l_cols = length row0,
              l_tileSize = 40, l_spawnX = 0, l_spawnY = 0, l_coins = [], l_hazards = []\<rparr>, r))))"

subsection \<open>Level.updateHazards\<close>

definition updateHazard :: "hazard \<Rightarrow> hazard" where
  "updateHazard hz =
     (if hz_type hz = CHR ''H'' then
        (let x1 = hz_x hz + hz_dir hz * hz_speed hz in
         if x1 < hz_baseX hz - hz_range hz then
           hz\<lparr>hz_x := hz_baseX hz - hz_range hz, hz_dir := hz_dir hz * (- 1)\<rparr>
         else if x1 > hz_baseX hz + hz_range hz then
           hz\<lparr>hz_x := hz_baseX hz + hz_range hz, hz_dir := hz_dir hz * (- 1)\<rparr>
         else hz\<lparr>hz_x := x1\<rparr>)
      else hz)"

definition updateHazards :: "real \<Rightarrow> level \<Rightarrow> level" where
  "updateHazards dt L = L\<lparr>l_hazards := map updateHazard (l_hazards L)\<rparr>"

subsection \<open>Input and Player\<close>

record input =
  i_left :: bool
  i_right :: bool
  i_down :: bool
  i_jumpRequested :: bool

definition consumeJump :: "input \<Rightarrow> bool \<times> input" where
  "consumeJump inp =
     (if i_jumpRequested inp then (True, inp\<lparr>i_jumpRequested := False\<rparr>) else (False, inp))"

record player =
  p_x :: real
  p_y :: real
  p_width :: real
  p_height :: real
  p_baseHeight :: real
  p_color :: string
  p_velX :: real
  p_velY :: real
  p_acc :: real
  p_maxSpeed :: real
  p_jumpForce :: real
  p_gravity :: real
  p_onGround :: bool
  p_onWall :: bool
  p_wallDir :: real
  p_sliding :: bool
  p_slideTimer :: real
  p_slideDuration :: real
  p_dive :: bool
  p_coyoteTimer :: real
  p_jumpBuffer :: real

definition Player_new :: "real \<Rightarrow> real \<Rightarrow> string \<Rightarrow> player" where
  "Player_new spawnX spawnY skinColor =
     \<lparr>p_x = spawnX, p_y = spawnY, p_width = 24, p_height = 40, p_baseHeight = 40,
      p_color = skinColor, p_velX = 0, p_velY = 0, p_acc = 0.4, p_maxSpeed = 5.5,
      p_jumpForce = 9, p_gravity = 0.45, p_onGround = False, p_onWall = False, p_wallDir = 0,
      p_sliding = False, p_slideTimer = 0, p_slideDuration = 15, p_dive = False,
      p_coyoteTimer = 0, p_jumpBuffer = 0\<rparr>"

subsection \<open>Level.collide\<close>

definition isSolid :: "char \<Rightarrow> bool" where
  "isSolid ch \<longleftrightarrow> ch = CHR ''#'' \<or> ch = CHR ''X'' \<or> ch = CHR ''B''"

text \<open>
  The object that \<^verbatim>\<open>collide\<close> returns. While \<^verbatim>\<open>collide\<close> runs, the same record holds its
  local variables: \<open>c_x\<close> and \<open>c_y\<close> are \<^verbatim>\<open>px\<close> and \<^verbatim>\<open>py\<close>.
\<close>

record coll =
  c_x :: real
  c_y :: real
  c_onGround :: bool
  c_onWall :: bool
  c_wallDir :: real
  c_bounce :: bool
  c_die :: bool
  c_win :: bool
  c_collectedCoin :: bool

text \<open>
  \<^verbatim>\<open>collide\<close> writes to the level (a broken tile, a collected coin), to the player (its
  velocity) and to its locals; the three travel together.
\<close>

record cstate =
  cs_level :: level
  cs_player :: player
  cs_coll :: coll

text \<open>
  The closure \<^verbatim>\<open>checkTile\<close>. \<open>None\<close> is the \<^verbatim>\<open>TypeError\<close> of reading
  \<^verbatim>\<open>this.map[ty][tx]\<close> when \<^verbatim>\<open>this.map[ty]\<close> is \<^verbatim>\<open>undefined\<close>. In
  \<^verbatim>\<open>collide\<close> and in what calls it, \<open>None\<close> is that there is no result: this exception,
  or a loop that never ends.
\<close>

definition checkTile :: "int \<Rightarrow> int \<Rightarrow> bool \<Rightarrow> cstate \<Rightarrow> cstate option" where
  "checkTile tx ty horizontal st =
     (let L = cs_level st; p = cs_player st; c = cs_coll st;
          ts = l_tileSize L; w = p_width p; h = p_height p
      in
      if ty < 0 \<or> ty \<ge> int (l_rows L) \<or> tx < 0 \<or> tx \<ge> int (l_cols L) then Some st
      else if nat ty \<ge> length (l_map L) then None
      else
        case cellAt (l_map L ! nat ty) (nat tx) of
          None \<Rightarrow> Some st
        | Some ch \<Rightarrow>
            if isSolid ch then
              (let tileX = real_of_int tx * ts; tileY = real_of_int ty * ts in
               if ch = CHR ''X'' \<and> p_dive p \<and> p_velY p > 0 then
                 Some (st\<lparr>cs_level := L\<lparr>l_map := setTile (l_map L) (nat ty) (nat tx) CHR '' ''\<rparr>\<rparr>)
               else if horizontal then
                 (if p_velX p > 0 then
                    Some (st\<lparr>cs_coll := c\<lparr>c_x := tileX - w, c_onWall := True, c_wallDir := 1\<rparr>,
                             cs_player := p\<lparr>p_velX := 0\<rparr>\<rparr>)
                  else if p_velX p < 0 then
                    Some (st\<lparr>cs_coll := c\<lparr>c_x := tileX + ts, c_onWall := True, c_wallDir := - 1\<rparr>,
                             cs_player := p\<lparr>p_velX := 0\<rparr>\<rparr>)
                  else Some st)
               else
                 (let st1 =
                        (if p_velY p > 0 then
                           st\<lparr>cs_coll := c\<lparr>c_y := tileY - h, c_onGround := True\<rparr>,
                              cs_player := p\<lparr>p_velY := 0\<rparr>\<rparr>
                         else if p_velY p < 0 then
                           st\<lparr>cs_coll := c\<lparr>c_y := tileY + ts\<rparr>,
                              cs_player := p\<lparr>p_velY := 0\<rparr>\<rparr>
                         else st)
                  in if ch = CHR ''B'' \<and> p_velY (cs_player st1) > 0
                     then Some (st1\<lparr>cs_coll := (cs_coll st1)\<lparr>c_bounce := True\<rparr>\<rparr>)
                     else Some st1))
            else if ch = CHR ''S'' then Some (st\<lparr>cs_coll := c\<lparr>c_die := True\<rparr>\<rparr>)
            else if ch = CHR ''F'' then Some (st\<lparr>cs_coll := c\<lparr>c_win := True\<rparr>\<rparr>)
            else Some st)"

text \<open>
  A whole number as a double holds it: itself up to 53 bits, and beyond that the nearest
  number with a 53-bit significand, a tie going to the even significand (numbers beyond the
  largest double, about \<open>2 ^ 1024\<close>, are not modelled).
\<close>

definition toDouble :: "int \<Rightarrow> int" where
  "toDouble n =
     (let d = bitlen \<bar>n\<bar> - 53 in
      if d \<le> 0 then n
      else
        (let q = n div 2 ^ nat d; r = n mod 2 ^ nat d; half = 2 ^ nat (d - 1)
         in (if r < half \<or> (r = half \<and> even q) then q else q + 1) * 2 ^ nat d))"

text \<open>\<^verbatim>\<open>i++\<close> on a counter that holds a whole number.\<close>

definition increment :: "int \<Rightarrow> int" where
  "increment i = toDouble (i + 1)"

text \<open>
  \<^verbatim>\<open>for (let i = lo; i <= hi; i++) body(i)\<close>, the body being a call of \<^verbatim>\<open>checkTile\<close>.
  The loop has no result (\<open>None\<close>) when the body throws, and when the loop never ends.
\<close>

partial_function (option) forLoop ::
  "(int \<Rightarrow> 's \<Rightarrow> 's option) \<Rightarrow> int \<Rightarrow> int \<Rightarrow> 's \<Rightarrow> 's option" where
  "forLoop body i hi st =
     (if i \<le> hi then
        (case body i st of
           None \<Rightarrow> None
         | Some st' \<Rightarrow> forLoop body (increment i) hi st')
      else Some st)"

declare forLoop.simps [code]

definition horizontalPass :: "cstate \<Rightarrow> cstate option" where
  "horizontalPass st =
     (let ts = l_tileSize (cs_level st); p = cs_player st; c = cs_coll st;
          w = p_width p; h = p_height p;
          top = \<lfloor>c_y c / ts\<rfloor>;
          bottom = \<lfloor>(c_y c + h - 1) / ts\<rfloor>
      in
      if p_velX p \<noteq> 0 then
        (if p_velX p > 0 then
           (let rightEdge = c_x c + w; col = \<lfloor>rightEdge / ts\<rfloor>
            in forLoop (\<lambda>row. checkTile col row True) top bottom st)
         else
           (let leftEdge = c_x c; col = \<lfloor>leftEdge / ts\<rfloor>
            in forLoop (\<lambda>row. checkTile col row True) top bottom st))
      else Some st)"

text \<open>
  The vertical sweep over the columns \<open>left .. right\<close>, which \<^verbatim>\<open>collide\<close> computes just
  before it from \<^verbatim>\<open>px\<close>.
\<close>

definition verticalSweep :: "int \<Rightarrow> int \<Rightarrow> cstate \<Rightarrow> cstate option" where
  "verticalSweep left right st =
     (let ts = l_tileSize (cs_level st); p = cs_player st; c = cs_coll st; h = p_height p
      in
      if p_velY p \<noteq> 0 then
        (if p_velY p > 0 then
           (let bottomEdge = c_y c + h; row = \<lfloor>bottomEdge / ts\<rfloor>
            in forLoop (\<lambda>col. checkTile col row False) left right st)
         else
           (let topEdge = c_y c; row = \<lfloor>topEdge / ts\<rfloor>
            in forLoop (\<lambda>col. checkTile col row False) left right st))
      else Some st)"

definition verticalPass :: "cstate \<Rightarrow> cstate option" where
  "verticalPass st =
     (let ts = l_tileSize (cs_level st); w = p_width (cs_player st); px = c_x (cs_coll st);
          left = \<lfloor>px / ts\<rfloor>;
          right = \<lfloor>(px + w - 1) / ts\<rfloor>
      in verticalSweep left right st)"

fun collectCoins :: "real \<Rightarrow> real \<Rightarrow> real \<Rightarrow> real \<Rightarrow> real \<Rightarrow> coin list \<Rightarrow> coin list \<times> bool" where
  "collectCoins px py w h ts [] = ([], False)"
| "collectCoins px py w h ts (coin # coins) =
     (let (coins', found) = collectCoins px py w h ts coins in
      if \<not> coin_collected coin then
        (let dx = px + w / 2 - coin_x coin; dy = py + h / 2 - coin_y coin in
         if \<bar>dx\<bar> < ts / 2 \<and> \<bar>dy\<bar> < ts / 2
         then (coin\<lparr>coin_collected := True\<rparr> # coins', True)
         else (coin # coins', found))
      else (coin # coins', found))"

definition coinPass :: "cstate \<Rightarrow> cstate" where
  "coinPass st =
     (let L = cs_level st; p = cs_player st; c = cs_coll st;
          (coins', found) = collectCoins (c_x c) (c_y c) (p_width p) (p_height p) (l_tileSize L) (l_coins L)
      in st\<lparr>cs_level := L\<lparr>l_coins := coins'\<rparr>,
            cs_coll := c\<lparr>c_collectedCoin := (c_collectedCoin c \<or> found)\<rparr>\<rparr>)"

definition hitsHazard :: "real \<Rightarrow> real \<Rightarrow> real \<Rightarrow> real \<Rightarrow> hazard \<Rightarrow> bool" where
  "hitsHazard px py w h hz \<longleftrightarrow>
     px < hz_x hz + hz_width hz \<and> px + w > hz_x hz \<and> py < hz_y hz + hz_height hz \<and> py + h > hz_y hz"

definition hazardPass :: "cstate \<Rightarrow> cstate" where
  "hazardPass st =
     (let L = cs_level st; p = cs_player st; c = cs_coll st in
      if list_ex (hitsHazard (c_x c) (c_y c) (p_width p) (p_height p)) (l_hazards L)
      then st\<lparr>cs_coll := c\<lparr>c_die := True\<rparr>\<rparr> else st)"

definition collideInit :: "level \<Rightarrow> player \<Rightarrow> real \<Rightarrow> real \<Rightarrow> cstate" where
  "collideInit L p nextX nextY =
     \<lparr>cs_level = L, cs_player = p,
      cs_coll = \<lparr>c_x = nextX, c_y = nextY, c_onGround = False, c_onWall = False, c_wallDir = 0,
                 c_bounce = False, c_die = False, c_win = False, c_collectedCoin = False\<rparr>\<rparr>"

definition collide :: "level \<Rightarrow> player \<Rightarrow> real \<Rightarrow> real \<Rightarrow> cstate option" where
  "collide L p nextX nextY =
     (case horizontalPass (collideInit L p nextX nextY) of
        None \<Rightarrow> None
      | Some st1 \<Rightarrow>
          (case verticalPass st1 of
             None \<Rightarrow> None
           | Some st2 \<Rightarrow> Some (hazardPass (coinPass st2))))"

subsection \<open>Player.update\<close>

text \<open>
  The body of \<^verbatim>\<open>update\<close> is a sequence of blocks, each under its own comment in the source;
  each block is one function here, in the order of the source.
\<close>

text \<open>Horizontal input, friction and the speed cap.\<close>

definition update_move :: "input \<Rightarrow> player \<Rightarrow> player" where
  "update_move inp p =
     (let move = (if i_left inp then - 1 else 0) + (if i_right inp then 1 else 0);
          v1 = p_velX p + move * p_acc p;
          v2 = (if move = 0 then (let v = v1 * 0.8 in if \<bar>v\<bar> < 0.05 then 0 else v) else v1);
          v3 = (if v2 > p_maxSpeed p then p_maxSpeed p else v2);
          v4 = (if v3 < - p_maxSpeed p then - p_maxSpeed p else v3)
      in p\<lparr>p_velX := v4\<rparr>)"

text \<open>The condition under which a slide is initiated.\<close>

definition slideStarts :: "input \<Rightarrow> player \<Rightarrow> bool" where
  "slideStarts inp p \<longleftrightarrow> p_onGround p \<and> i_down inp \<and> \<not> p_sliding p \<and> \<bar>p_velX p\<bar> > 2"

definition update_slideStart :: "input \<Rightarrow> player \<Rightarrow> player" where
  "update_slideStart inp p =
     (if slideStarts inp p then
        (let height = p_baseHeight p / 2 in
         p\<lparr>p_sliding := True, p_slideTimer := p_slideDuration p, p_height := height,
           p_y := p_y p + (p_baseHeight p - height),
           p_velX := p_velX p + (if p_velX p > 0 then 1 else - 1)\<rparr>)
      else p)"

definition update_sliding :: "real \<Rightarrow> input \<Rightarrow> player \<Rightarrow> player" where
  "update_sliding dt inp p =
     (if p_sliding p then
        (let p1 = p\<lparr>p_slideTimer := p_slideTimer p - dt, p_velX := p_velX p * 0.98\<rparr> in
         if p_slideTimer p1 \<le> 0 \<or> \<not> i_down inp then
           (let oldHeight = p_height p1 in
            p1\<lparr>p_sliding := False, p_height := p_baseHeight p1,
               p_y := p_y p1 - (p_baseHeight p1 - oldHeight)\<rparr>)
         else p1)
      else p)"

definition update_dive :: "input \<Rightarrow> player \<Rightarrow> player" where
  "update_dive inp p =
     (if \<not> p_onGround p \<and> i_down inp \<and> \<not> p_dive p then p\<lparr>p_dive := True, p_velY := 12\<rparr> else p)"

definition update_coyote :: "real \<Rightarrow> player \<Rightarrow> player" where
  "update_coyote dt p =
     (if p_onGround p then p\<lparr>p_coyoteTimer := 6\<rparr>
      else if p_coyoteTimer p > 0 then p\<lparr>p_coyoteTimer := p_coyoteTimer p - dt\<rparr>
      else p)"

definition update_jumpBuffer :: "real \<Rightarrow> input \<times> player \<Rightarrow> input \<times> player" where
  "update_jumpBuffer dt = (\<lambda>(inp, p).
     let (requested, inp') = consumeJump inp in
     if requested then (inp', p\<lparr>p_jumpBuffer := 6\<rparr>)
     else if p_jumpBuffer p > 0 then (inp', p\<lparr>p_jumpBuffer := p_jumpBuffer p - dt\<rparr>)
     else (inp', p))"

definition update_jump :: "player \<Rightarrow> player" where
  "update_jump p =
     (if p_jumpBuffer p > 0 then
        (if p_coyoteTimer p > 0 then
           p\<lparr>p_velY := - p_jumpForce p, p_onGround := False, p_coyoteTimer := 0, p_jumpBuffer := 0\<rparr>
         else if p_onWall p then
           p\<lparr>p_velY := - p_jumpForce p * 0.9, p_velX := - p_wallDir p * (p_maxSpeed p * 0.8),
             p_onWall := False, p_jumpBuffer := 0\<rparr>
         else p)
      else p)"

definition update_gravity :: "player \<Rightarrow> player" where
  "update_gravity p =
     (let v = p_velY p + p_gravity p in p\<lparr>p_velY := (if v > 15 then 15 else v)\<rparr>)"

text \<open>
  Everything \<^verbatim>\<open>update\<close> does before it computes the proposed position: the velocity of the
  result is the one the move of this tick is made with.
\<close>

definition update_velocity :: "real \<Rightarrow> input \<Rightarrow> player \<Rightarrow> input \<times> player" where
  "update_velocity dt inp p =
     (let p1 = update_move inp p;
          p2 = update_slideStart inp p1;
          p3 = update_sliding dt inp p2;
          p4 = update_dive inp p3;
          p5 = update_coyote dt p4;
          (inp', p6) = update_jumpBuffer dt (inp, p5);
          p7 = update_jump p6
      in (inp', update_gravity p7))"

text \<open>
  What \<^verbatim>\<open>update\<close> tells the \<^verbatim>\<open>Game\<close> object: \<^verbatim>\<open>Game.resetLevel()\<close> (the player
  died), \<^verbatim>\<open>Game.completeLevel()\<close> (it won), or neither, with \<^verbatim>\<open>Game.addCoin()\<close> called
  or not.
\<close>

datatype signal = Died | Won | Alive bool

record tick =
  t_input :: input
  t_player :: player
  t_level :: level
  t_signal :: signal

definition Player_update :: "real \<Rightarrow> input \<Rightarrow> player \<Rightarrow> level \<Rightarrow> tick option" where
  "Player_update dt inp p L =
     (let (inp', p8) = update_velocity dt inp p;
          nextX = p_x p8 + p_velX p8;
          nextY = p_y p8 + p_velY p8
      in
      case collide L p8 nextX nextY of
        None \<Rightarrow> None
      | Some st \<Rightarrow>
          (let c = cs_coll st;
               p9 = (cs_player st)\<lparr>p_x := c_x c, p_y := c_y c, p_onGround := c_onGround c,
                                    p_onWall := c_onWall c, p_wallDir := c_wallDir c\<rparr>;
               p10 = (if c_bounce c then p9\<lparr>p_velY := - p_jumpForce p9 * 1.5, p_dive := False\<rparr> else p9)
           in
           if c_die c then
             Some \<lparr>t_input = inp', t_player = p10, t_level = cs_level st, t_signal = Died\<rparr>
           else if c_win c then
             Some \<lparr>t_input = inp', t_player = p10, t_level = cs_level st, t_signal = Won\<rparr>
           else
             Some \<lparr>t_input = inp',
                   t_player = (if p_onGround p10 then p10\<lparr>p_dive := False\<rparr> else p10),
                   t_level = cs_level st, t_signal = Alive (c_collectedCoin c)\<rparr>))"

subsection \<open>Game\<close>

text \<open>
  The \<^verbatim>\<open>Game\<close> object without its presentation: the overlays, the canvas, the camera and
  the write to \<^verbatim>\<open>localStorage\<close> are left out. \<^verbatim>\<open>performance.now()\<close> and
  \<^verbatim>\<open>Math.random\<close> are arguments of the functions that read them.
\<close>

datatype gstate = Menu | Playing | Paused | Complete | LevelSelect | Skins

record skin =
  sk_color :: string
  sk_price :: nat
  sk_unlocked :: bool

record game =
  g_state :: gstate
  g_levels :: "tilemap list"
  g_currentLevelIndex :: nat
  g_level :: "level option"
  g_player :: "player option"
  g_coins :: nat
  g_sessionCoins :: nat
  g_skins :: "skin list"
  g_selectedSkinIndex :: nat
  g_bestTimes :: "nat \<rightharpoonup> real"
  g_levelStartTime :: real
  g_currentTime :: real
  g_lastFrame :: real
  g_input :: input

text \<open>
  \<^verbatim>\<open>startGame(levelIndex)\<close>. \<open>None\<close> is an exception: there is no level to load
  (\<^verbatim>\<open>new Level(undefined)\<close>), the template has no rows, or there is no selected skin.
\<close>

definition startGame :: "int \<Rightarrow> real \<Rightarrow> rng \<Rightarrow> game \<Rightarrow> game option" where
  "startGame levelIndex now r g =
     (let idx = (if levelIndex < 0 \<or> levelIndex \<ge> int (length (g_levels g)) then 0 else nat levelIndex)
      in
      if idx \<ge> length (g_levels g) then None
      else
        case Level_new (g_levels g ! idx) r of
          None \<Rightarrow> None
        | Some L \<Rightarrow>
            if g_selectedSkinIndex g \<ge> length (g_skins g) then None
            else
              Some (g\<lparr>g_currentLevelIndex := idx, g_level := Some L,
                      g_player := Some (Player_new (l_spawnX L) (l_spawnY L - l_tileSize L)
                                         (sk_color (g_skins g ! g_selectedSkinIndex g))),
                      g_levelStartTime := now, g_currentTime := 0, g_sessionCoins := 0,
                      g_state := Playing\<rparr>))"

definition resetLevel :: "real \<Rightarrow> rng \<Rightarrow> game \<Rightarrow> game option" where
  "resetLevel now r g = startGame (int (g_currentLevelIndex g)) now r g"

definition addCoin :: "game \<Rightarrow> game" where
  "addCoin g = g\<lparr>g_sessionCoins := g_sessionCoins g + 1\<rparr>"

definition completeLevel :: "real \<Rightarrow> game \<Rightarrow> game" where
  "completeLevel now g =
     (let finishTime = (now - g_levelStartTime g) / 1000;
          levelIndex = g_currentLevelIndex g;
          best = g_bestTimes g levelIndex;
          bestTimes' =
            (case best of
               None \<Rightarrow> (g_bestTimes g)(levelIndex \<mapsto> finishTime)
             | Some b \<Rightarrow>
                 if finishTime < b then (g_bestTimes g)(levelIndex \<mapsto> finishTime)
                 else g_bestTimes g)
      in g\<lparr>g_state := Complete, g_bestTimes := bestTimes',
            g_coins := g_coins g + g_sessionCoins g\<rparr>)"

definition togglePause :: "bool option \<Rightarrow> real \<Rightarrow> game \<Rightarrow> game" where
  "togglePause forceOff now g =
     (if g_state g = Playing \<and> (forceOff = None \<or> forceOff = Some False) then g\<lparr>g_state := Paused\<rparr>
      else if g_state g = Paused \<or> forceOff = Some True then
        g\<lparr>g_state := Playing, g_levelStartTime := now - g_currentTime g * 1000\<rparr>
      else g)"

text \<open>The two key handlers of \<^verbatim>\<open>Input.init\<close>; \<open>k\<close> is the key in lower case.\<close>

definition keydown :: "string \<Rightarrow> real \<Rightarrow> game \<Rightarrow> game" where
  "keydown k now g =
     (let inp = g_input g in
      if k = ''arrowleft'' \<or> k = ''a'' then g\<lparr>g_input := inp\<lparr>i_left := True\<rparr>\<rparr>
      else if k = ''arrowright'' \<or> k = ''d'' then g\<lparr>g_input := inp\<lparr>i_right := True\<rparr>\<rparr>
      else if k = ''arrowdown'' \<or> k = ''s'' then g\<lparr>g_input := inp\<lparr>i_down := True\<rparr>\<rparr>
      else if k = ''arrowup'' \<or> k = ''w'' then g\<lparr>g_input := inp\<lparr>i_jumpRequested := True\<rparr>\<rparr>
      else if k = ''p'' \<or> k = ''escape'' then togglePause None now g
      else g)"

definition keyup :: "string \<Rightarrow> game \<Rightarrow> game" where
  "keyup k g =
     (let inp = g_input g in
      if k = ''arrowleft'' \<or> k = ''a'' then g\<lparr>g_input := inp\<lparr>i_left := False\<rparr>\<rparr>
      else if k = ''arrowright'' \<or> k = ''d'' then g\<lparr>g_input := inp\<lparr>i_right := False\<rparr>\<rparr>
      else if k = ''arrowdown'' \<or> k = ''s'' then g\<lparr>g_input := inp\<lparr>i_down := False\<rparr>\<rparr>
      else g)"

text \<open>
  One frame of \<^verbatim>\<open>loop(now)\<close>; \<open>clock\<close> is what \<^verbatim>\<open>performance.now()\<close> returns if the
  frame reads it. \<open>None\<close>: an exception (no level or player while playing, or one of the
  above).
\<close>

definition loop :: "real \<Rightarrow> real \<Rightarrow> rng \<Rightarrow> game \<Rightarrow> game option" where
  "loop now clock r g =
     (let dtMs = now - g_lastFrame g;
          dt = min 33 dtMs / 16.6667;
          g1 = g\<lparr>g_lastFrame := now\<rparr>
      in
      if g_state g1 = Playing then
        (let g2 = g1\<lparr>g_currentTime := (now - g_levelStartTime g1) / 1000\<rparr> in
         case (g_level g2, g_player g2) of
           (Some L, Some p) \<Rightarrow>
             (case Player_update dt (g_input g2) p (updateHazards dt L) of
                None \<Rightarrow> None
              | Some t \<Rightarrow>
                  (let g3 = g2\<lparr>g_input := t_input t, g_player := Some (t_player t),
                               g_level := Some (t_level t)\<rparr>
                   in case t_signal t of
                        Died \<Rightarrow> resetLevel clock r g3
                      | Won \<Rightarrow> Some (completeLevel clock g3)
                      | Alive collected \<Rightarrow> Some (if collected then addCoin g3 else g3)))
         | _ \<Rightarrow> None)
      else Some g1)"

definition showMenu :: "game \<Rightarrow> game" where
  "showMenu g = g\<lparr>g_state := Menu\<rparr>"

definition exitToMenu :: "game \<Rightarrow> game" where
  "exitToMenu g = showMenu g"

definition showLevelSelect :: "game \<Rightarrow> game" where
  "showLevelSelect g = g\<lparr>g_state := LevelSelect\<rparr>"

definition showSkins :: "game \<Rightarrow> game" where
  "showSkins g = g\<lparr>g_state := Skins\<rparr>"

definition nextLevel :: "real \<Rightarrow> rng \<Rightarrow> game \<Rightarrow> game option" where
  "nextLevel now r g =
     (let next = g_currentLevelIndex g + 1 in
      if next < length (g_levels g) then startGame (int next) now r g
      else Some (exitToMenu g))"

text \<open>
  What can happen to a game: a key goes down or up, a frame runs, or a button is pressed (play
  or a level of the level list, retry, next level, resume, exit or close, level select,
  skins).
\<close>

datatype event =
    KeyDown string real
  | KeyUp string
  | Frame real real rng
  | Start int real rng
  | Retry real rng
  | Next real rng
  | Resume real
  | Exit
  | OpenLevelSelect
  | OpenSkins

fun step :: "event \<Rightarrow> game \<Rightarrow> game option" where
  "step (KeyDown k now) g = Some (keydown k now g)"
| "step (KeyUp k) g = Some (keyup k g)"
| "step (Frame now clock r) g = loop now clock r g"
| "step (Start levelIndex now r) g = startGame levelIndex now r g"
| "step (Retry now r) g = resetLevel now r g"
| "step (Next now r) g = nextLevel now r g"
| "step (Resume now) g = Some (togglePause (Some False) now g)"
| "step Exit g = Some (exitToMenu g)"
| "step OpenLevelSelect g = Some (showLevelSelect g)"
| "step OpenSkins g = Some (showSkins g)"

fun run :: "event list \<Rightarrow> game \<Rightarrow> game option" where
  "run [] g = Some g"
| "run (e # es) g = (case step e g of None \<Rightarrow> None | Some g' \<Rightarrow> run es g')"

subsection \<open>Vocabulary of the properties\<close>

text \<open>What of a moving hazard does not come from \<^verbatim>\<open>Math.random()\<close>.\<close>

definition hazardFixed :: "hazard \<Rightarrow> char \<times> real \<times> real \<times> real \<times> real \<times> real \<times> real" where
  "hazardFixed hz =
     (hz_type hz, hz_baseX hz, hz_y hz, hz_x hz, hz_width hz, hz_height hz, hz_range hz)"

text \<open>Two level instances that differ at most in the speed and the direction of their hazards.\<close>

definition sameButSpeedDir :: "level \<Rightarrow> level \<Rightarrow> bool" where
  "sameButSpeedDir L1 L2 \<longleftrightarrow>
     l_map L1 = l_map L2 \<and> l_rows L1 = l_rows L2 \<and> l_cols L1 = l_cols L2 \<and>
     l_tileSize L1 = l_tileSize L2 \<and> l_spawnX L1 = l_spawnX L2 \<and> l_spawnY L1 = l_spawnY L2 \<and>
     l_coins L1 = l_coins L2 \<and>
     map hazardFixed (l_hazards L1) = map hazardFixed (l_hazards L2)"

text \<open>Two level instances that differ at most in the speed of their hazards.\<close>

definition sameButSpeed :: "level \<Rightarrow> level \<Rightarrow> bool" where
  "sameButSpeed L1 L2 \<longleftrightarrow>
     sameButSpeedDir L1 L2 \<and> map hz_dir (l_hazards L1) = map hz_dir (l_hazards L2)"

text \<open>A horizontal hazard on its patrol: inside its range, with a direction of \<open>1\<close> or \<open>- 1\<close>.\<close>

definition hazardOk :: "hazard \<Rightarrow> bool" where
  "hazardOk hz \<longleftrightarrow>
     hz_type hz = CHR ''H'' \<and> 0 \<le> hz_range hz \<and> \<bar>hz_dir hz\<bar> = 1 \<and>
     hz_baseX hz - hz_range hz \<le> hz_x hz \<and> hz_x hz \<le> hz_baseX hz + hz_range hz"

text \<open>
  What the constructor of \<^verbatim>\<open>Level\<close> establishes between \<^verbatim>\<open>this.rows\<close> and
  \<^verbatim>\<open>this.map\<close>.
\<close>

definition levelWf :: "level \<Rightarrow> bool" where
  "levelWf L \<longleftrightarrow> l_rows L = length (l_map L)"



text \<open>
  A player whose velocity components are each what they were or zero, with the same jump
  force: all that \<^verbatim>\<open>collide\<close> does to the velocity.
\<close>

definition slowed :: "player \<Rightarrow> player \<Rightarrow> bool" where
  "slowed p p' \<longleftrightarrow>
     (p_velX p' = p_velX p \<or> p_velX p' = 0) \<and> (p_velY p' = p_velY p \<or> p_velY p' = 0) \<and>
     p_jumpForce p' = p_jumpForce p"

text \<open>Best times that are kept or improved: no level's best time is lost or gets larger.\<close>

definition neverWorse :: "(nat \<rightharpoonup> real) \<Rightarrow> (nat \<rightharpoonup> real) \<Rightarrow> bool" where
  "neverWorse bt bt' \<longleftrightarrow> (\<forall>K b. bt K = Some b \<longrightarrow> (\<exists>b'. bt' K = Some b' \<and> b' \<le> b))"

subsection \<open>Example levels, players and keys\<close>

text \<open>A level with one moving hazard, and a random stream that gives it speed 2.5 leftwards.\<close>

definition patrolTemplate :: tilemap where
  "patrolTemplate = [''P H C'', ''#####'']"

definition patrolRng :: rng where
  "patrolRng = (\<lambda>n. if n = 0 then 1 / 2 else 1 / 5)"

definition patrolRng' :: rng where
  "patrolRng' = (\<lambda>n. if n = 0 then 1 / 2 else 4 / 5)"

definition patrolLevel :: level where
  "patrolLevel =
     \<lparr>l_map = [''     '', ''#####''], l_rows = 2, l_cols = 5, l_tileSize = 40,
      l_spawnX = 0, l_spawnY = 0,
      l_coins = [\<lparr>coin_x = 180, coin_y = 20, coin_collected = False\<rparr>],
      l_hazards =
        [\<lparr>hz_type = CHR ''H'', hz_baseX = 80, hz_y = 0, hz_x = 80, hz_width = 40,
          hz_height = 40, hz_range = 120, hz_dir = - 1, hz_speed = 5 / 2\<rparr>]\<rparr>"

definition patrolTicks :: "real list" where
  "patrolTicks = replicate 48 1"

definition patrolAtEdge :: hazard where
  "patrolAtEdge =
     \<lparr>hz_type = CHR ''H'', hz_baseX = 80, hz_y = 0, hz_x = - 40, hz_width = 40,
      hz_height = 40, hz_range = 120, hz_dir = - 1, hz_speed = 5 / 2\<rparr>"

text \<open>
  A wall tile in column 3 with a hazard tile under it, and a player falling along the wall
  while it pushes right.
\<close>

definition wallLevel :: level where
  "wallLevel =
     \<lparr>l_map = [''     '', ''   # '', ''   S '', ''#####''], l_rows = 4, l_cols = 5,
      l_tileSize = 40, l_spawnX = 0, l_spawnY = 0, l_coins = [], l_hazards = []\<rparr>"

definition wallPlayer :: player where
  "wallPlayer = (Player_new 96 40 ''#ffffff'')\<lparr>p_velX := 4, p_velY := 0.45\<rparr>"


text \<open>A player running right at full speed on flat ground, who presses down.\<close>

definition flatLevel :: level where
  "flatLevel =
     \<lparr>l_map = [''          '', ''          '', ''##########''], l_rows = 3, l_cols = 10,
      l_tileSize = 40, l_spawnX = 0, l_spawnY = 0, l_coins = [], l_hazards = []\<rparr>"

definition runner :: player where
  "runner = (Player_new 100 40 ''#ffffff'')\<lparr>p_onGround := True, p_velX := 5.5\<rparr>"

definition keysRightDown :: input where
  "keysRightDown = \<lparr>i_left = False, i_right = True, i_down = True, i_jumpRequested = False\<rparr>"

definition keysRight :: input where
  "keysRight = \<lparr>i_left = False, i_right = True, i_down = False, i_jumpRequested = False\<rparr>"

definition slidTick :: tick where
  "slidTick =
     \<lparr>t_input = keysRightDown,
      t_player = runner\<lparr>p_x := 106.37, p_y := 60, p_height := 20, p_velX := 6.37, p_velY := 0,
                         p_sliding := True, p_slideTimer := 14, p_coyoteTimer := 6\<rparr>,
      t_level = flatLevel, t_signal = Alive False\<rparr>"

text \<open>
  A game with one level and one skin, before any level is started. In the first level the
  player spawns above the goal and dives onto it; in the second it spawns above a coin and a
  breakable tile and dives through both.
\<close>

definition noKeys :: input where
  "noKeys = \<lparr>i_left = False, i_right = False, i_down = False, i_jumpRequested = False\<rparr>"

definition demoGame :: "tilemap \<Rightarrow> game" where
  "demoGame tmpl =
     \<lparr>g_state = Menu, g_levels = [tmpl], g_currentLevelIndex = 0, g_level = None,
      g_player = None, g_coins = 0, g_sessionCoins = 0,
      g_skins = [\<lparr>sk_color = ''#ffffff'', sk_price = 0, sk_unlocked = True\<rparr>],
      g_selectedSkinIndex = 0, g_bestTimes = Map.empty, g_levelStartTime = 0,
      g_currentTime = 0, g_lastFrame = 0, g_input = noKeys\<rparr>"

definition winTemplate :: tilemap where
  "winTemplate = [''P'', ''F'', ''#'']"

definition diveTemplate :: tilemap where
  "diveTemplate = ['' P '', '' C '', '' X '', ''###'']"

text \<open>Three completions of the first level, in 2, 3 and 1 seconds.\<close>

definition firstWin :: "event list" where
  "firstWin = [Start 0 0 (\<lambda>n. 0), KeyDown ''s'' 0,
     Frame 500 500 (\<lambda>n. 0), Frame 1000 1000 (\<lambda>n. 0), Frame 1500 1500 (\<lambda>n. 0),
     Frame 2000 2000 (\<lambda>n. 0)]"

definition slowerWin :: "event list" where
  "slowerWin = [Retry 5000 (\<lambda>n. 0),
     Frame 5500 5500 (\<lambda>n. 0), Frame 6000 6000 (\<lambda>n. 0), Frame 6500 6500 (\<lambda>n. 0),
     Frame 8000 8000 (\<lambda>n. 0)]"

definition fasterWin :: "event list" where
  "fasterWin = [Retry 10000 (\<lambda>n. 0),
     Frame 10250 10250 (\<lambda>n. 0), Frame 10500 10500 (\<lambda>n. 0), Frame 10750 10750 (\<lambda>n. 0),
     Frame 11000 11000 (\<lambda>n. 0)]"

definition afterFirstWin :: game where
  "afterFirstWin = the (run firstWin (demoGame winTemplate))"

definition afterSlowerWin :: game where
  "afterSlowerWin = the (run slowerWin afterFirstWin)"

definition afterFasterWin :: game where
  "afterFasterWin = the (run fasterWin afterSlowerWin)"

text \<open>Six frames of a dive in the second level, and a reset after them.\<close>

definition diveRun :: "event list" where
  "diveRun = [Start 0 0 (\<lambda>n. 0), KeyDown ''s'' 0,
     Frame 20 20 (\<lambda>n. 0), Frame 40 40 (\<lambda>n. 0), Frame 60 60 (\<lambda>n. 0),
     Frame 80 80 (\<lambda>n. 0), Frame 100 100 (\<lambda>n. 0), Frame 120 120 (\<lambda>n. 0)]"

definition afterDive :: game where
  "afterDive = the (run diveRun (demoGame diveTemplate))"

definition afterReset :: game where
  "afterReset = the (resetLevel 200 (\<lambda>n. 0) afterDive)"

section \<open>Properties\<close>

subsection \<open>Loops as folds\<close>

lemma fold_invariant:
  assumes "\<And>x s. P s \<Longrightarrow> P (f x s)" and "P s"
  shows "P (fold f xs s)"
  using assms(2) by (induction xs arbitrary: s) (auto intro: assms(1))

lemma fold_related:
  assumes "\<And>x s t. R s t \<Longrightarrow> R (f x s) (f x t)" and "R s t"
  shows "R (fold f xs s) (fold f xs t)"
  using assms(2) by (induction xs arbitrary: s t) (auto intro: assms(1))

lemma length_setTile [simp]: "length (setTile m r c ch) = length m"
  by (simp add: setTile_def)

subsection \<open>Loops with a counter\<close>

lemma toDouble_exact: "\<bar>n\<bar> < 2 ^ 53 \<Longrightarrow> toDouble n = n"
  using bitlen_le_iff_power [of "\<bar>n\<bar>" 53] by (simp add: toDouble_def Let_def)

lemma increment_exact:
  assumes "- (2 ^ 53) < i" and "i < 2 ^ 53 - 1"
  shows "increment i = i + 1"
  unfolding increment_def using assms by (intro toDouble_exact) simp

lemma increment_stalls: "increment (2 ^ 53) = 2 ^ 53"
  by code_simp

text \<open>Partial correctness: what every pass of the body keeps, the loop keeps.\<close>

lemma forLoop_invariant:
  fixes body :: "int \<Rightarrow> 's \<Rightarrow> 's option"
  assumes "forLoop body i hi st = Some st'"
    and "\<And>j s s'. I s \<Longrightarrow> body j s = Some s' \<Longrightarrow> I s'"
    and "I st"
  shows "I st'"
proof -
  define P where "P = (\<lambda>(f :: int \<Rightarrow> 's \<Rightarrow> 's option) (i :: int) (hi :: int) s s'.
    (\<forall>j t t'. I t \<longrightarrow> f j t = Some t' \<longrightarrow> I t') \<longrightarrow> I s \<longrightarrow> I s')"
  have "P body i hi st st'"
  proof (rule forLoop.raw_induct [where P = P, OF _ assms(1)])
    fix loop and f :: "int \<Rightarrow> 's \<Rightarrow> 's option" and i hi :: int and s s' :: 's
    assume IH: "\<And>f i hi s s'. loop f i hi s = Some s' \<Longrightarrow> P f i hi s s'"
      and run: "(if i \<le> hi
                 then case f i s of None \<Rightarrow> None | Some t \<Rightarrow> loop f (increment i) hi t
                 else Some s) = Some s'"
    show "P f i hi s s'"
      unfolding P_def
    proof (intro impI)
      assume step: "\<forall>j t t'. I t \<longrightarrow> f j t = Some t' \<longrightarrow> I t'" and s: "I s"
      show "I s'"
      proof (cases "i \<le> hi")
        case False
        then show ?thesis using run s by simp
      next
        case True
        then obtain s1 where s1: "f i s = Some s1"
          and rest: "loop f (increment i) hi s1 = Some s'"
          using run by (auto split: option.splits)
        have "I s1" using step s s1 by blast
        with IH [OF rest] step show ?thesis unfolding P_def by blast
      qed
    qed
  qed
  with assms(2,3) show ?thesis unfolding P_def by blast
qed

text \<open>Termination, while the counter is a whole number that a double holds exactly.\<close>

lemma forLoop_defined:
  assumes "- (2 ^ 53) < i" and "hi < 2 ^ 53 - 1"
    and "\<And>j s. I s \<Longrightarrow> \<exists>s'. body j s = Some s' \<and> I s'"
    and "I st"
  shows "\<exists>st'. forLoop body i hi st = Some st' \<and> I st'"
  using assms(1,4)
proof (induction "nat (hi + 1 - i)" arbitrary: i st)
  case 0
  then have "\<not> i \<le> hi" by simp
  then show ?case using "0.prems"(2) by (simp add: forLoop.simps)
next
  case (Suc n)
  then have le: "i \<le> hi" by simp
  from assms(3) [OF Suc.prems(2)] obtain s1 where s1: "body i st = Some s1" "I s1" by blast
  have inc: "increment i = i + 1"
    using Suc.prems(1) le assms(2) by (intro increment_exact) simp_all
  have "n = nat (hi + 1 - (i + 1))" using Suc(2) by simp
  from Suc(1) [OF this _ s1(2)] Suc.prems(1)
  obtain st' where "forLoop body (i + 1) hi s1 = Some st'" "I st'" by auto
  then show ?case
    by (subst forLoop.simps) (simp add: le s1 inc)
qed

text \<open>
  No termination once adding 1 to the counter gives the counter back, if the body returns.
\<close>

lemma forLoop_stalls:
  fixes body :: "int \<Rightarrow> 's \<Rightarrow> 's option"
  assumes "increment i = i" and "i \<le> hi"
  shows "forLoop body i hi st = None"
proof (rule ccontr)
  assume "forLoop body i hi st \<noteq> None"
  then obtain st' where run: "forLoop body i hi st = Some st'" by auto
  define P where "P = (\<lambda>(f :: int \<Rightarrow> 's \<Rightarrow> 's option) (i :: int) (hi :: int) (s :: 's) (s' :: 's).
    \<not> (increment i = i \<and> i \<le> hi))"
  have "P body i hi st st'"
  proof (rule forLoop.raw_induct [where P = P, OF _ run])
    fix loop and f :: "int \<Rightarrow> 's \<Rightarrow> 's option" and i hi :: int and s s' :: 's
    assume IH: "\<And>f i hi s s'. loop f i hi s = Some s' \<Longrightarrow> P f i hi s s'"
      and run: "(if i \<le> hi
                 then case f i s of None \<Rightarrow> None | Some t \<Rightarrow> loop f (increment i) hi t
                 else Some s) = Some s'"
    show "P f i hi s s'"
      unfolding P_def
    proof
      assume a: "increment i = i \<and> i \<le> hi"
      then obtain s1 where "loop f i hi s1 = Some s'"
        using run by (auto split: option.splits)
      from IH [OF this] a show False by (simp add: P_def)
    qed
  qed
  with assms show False by (simp add: P_def)
qed

subsection \<open>The generator\<close>

text \<open>
  Every column the generator writes to is inside the grid, so that no assignment extends a
  row: \<open>setTile\<close> is all of \<^verbatim>\<open>map[r][c] = ch\<close> there.
\<close>

lemma mod_below:
  fixes a n m :: nat
  assumes "0 < n" and "n \<le> m"
  shows "a mod n < m"
  using mod_less_divisor [OF assms(1), of a] assms(2) by linarith

lemma generator_columns_inside:
  "hazardCol index h < gen_width"
  "(index * 5 + b * 13) mod (gen_width - 6) + 3 < gen_width"
  "(index * 3 + c * 13) mod (gen_width - 6) + 3 < gen_width"
  "k < 4 \<Longrightarrow> (index * 6 + p * 12) mod (gen_width - 10) + 5 + k < gen_width"
  "(index * 4 + mh * 17) mod (gen_width - 10) + 5 < gen_width"
proof -
  have h: "a mod 36 < 38" for a :: nat
    using mod_below [of 36 38 a] by simp
  show "hazardCol index h < gen_width"
    by (simp add: hazardCol_def gen_width_def Let_def h)
  have b: "a mod 34 + 3 < 40" for a :: nat
    using mod_below [of 34 37 a] by simp
  show "(index * 5 + b * 13) mod (gen_width - 6) + 3 < gen_width"
    and "(index * 3 + c * 13) mod (gen_width - 6) + 3 < gen_width"
    by (simp_all add: gen_width_def b)
  have p: "a mod 30 + 5 + k < 40" if "k < 4" for a :: nat
    using mod_below [of 30 31 a] that by simp
  show "(index * 6 + p * 12) mod (gen_width - 10) + 5 + k < gen_width" if "k < 4"
    using p [OF that] by (simp add: gen_width_def)
  have m: "a mod 30 + 5 < 40" for a :: nat
    using mod_below [of 30 35 a] by simp
  show "(index * 4 + mh * 17) mod (gen_width - 10) + 5 < gen_width"
    by (simp add: gen_width_def m)
qed

lemma generateLevel_0:
  "generateLevel 0 =
    [''                                        '',
     ''                                        '',
     ''                                        '',
     ''                                        '',
     ''                                        '',
     ''                                        '',
     ''                                        '',
     ''     ####        ####                   '',
     ''   C            C            C          '',
     ''                                        '',
     '' PS          S      B                 F '',
     ''########################################'']"
  by code_simp

lemma generateLevel_18:
  "generateLevel 18 =
    [''                                        '',
     ''                                        '',
     ''                                        '',
     ''                                        '',
     ''                                        '',
     ''                                        '',
     ''                                        '',
     ''     ####              ####             '',
     ''               C       C            C   '',
     ''                                        '',
     '' P    S             B          S      F '',
     ''########################################'']"
  by code_simp

text \<open>
  C4. The grid of \<open>generateLevel 0\<close>: the bottom row is all solid; on the row above the
  ground the spawn marker is at column 1 and nowhere else, the goal at column \<open>width - 2\<close>
  and nowhere else, and the one bounce pad of the grid at the centre column; the grid has
  exactly 2 static hazard tiles, no breakable tile, exactly 3 coins, no moving hazard, and
  two floating platforms: the solid tiles of the platform row are the two strips of columns
  5 to 8 and 17 to 20, and the grid has no solid tile but these and the ground.
\<close>

theorem generateLevel_0_layout:
  "generateLevel 0 ! (gen_height - 1) = replicate gen_width CHR ''#'' \<and>
   tileCols CHR ''P'' (generateLevel 0 ! (gen_height - 2)) = [1] \<and>
   countTile CHR ''P'' (generateLevel 0) = 1 \<and>
   tileCols CHR ''F'' (generateLevel 0 ! (gen_height - 2)) = [gen_width - 2] \<and>
   countTile CHR ''F'' (generateLevel 0) = 1 \<and>
   countTile CHR ''S'' (generateLevel 0) = 2 \<and>
   tileCols CHR ''B'' (generateLevel 0 ! (gen_height - 2)) = [gen_width div 2] \<and>
   countTile CHR ''B'' (generateLevel 0) = 1 \<and>
   countTile CHR ''X'' (generateLevel 0) = 0 \<and>
   countTile CHR ''C'' (generateLevel 0) = 3 \<and>
   tileCols CHR ''#'' (generateLevel 0 ! (gen_height - 5)) = [5, 6, 7, 8, 17, 18, 19, 20] \<and>
   countTile CHR ''#'' (generateLevel 0) = gen_width + 2 * 4 \<and>
   countTile CHR ''H'' (generateLevel 0) = 0"
  unfolding generateLevel_0 by code_simp

text \<open>
  C10. A later placement overwrites an earlier one on the same cell. At index 18, a multiple
  of 3, the first hazard column is the centre column 20; the bounce pad is written there after
  the hazards, the cell holds the bounce pad, and the grid has 2 hazard tiles, fewer than the
  3 that \<open>2 + index div 10\<close> counts.
\<close>

theorem generateLevel_18_bounce_replaces_hazard:
  "18 mod 3 = (0::nat) \<and>
   hazardCol 18 0 = gen_width div 2 \<and>
   generateLevel 18 ! (gen_height - 2) ! (gen_width div 2) = CHR ''B'' \<and>
   countTile CHR ''S'' (generateLevel 18) = 2 \<and>
   countTile CHR ''S'' (generateLevel 18) < 2 + 18 div 10"
  unfolding generateLevel_18 by code_simp

subsection \<open>Level instances and the random source\<close>

lemma parseCell_related:
  assumes "sameButSpeedDir (fst s) (fst t)"
  shows "sameButSpeedDir (fst (parseCell y x s)) (fst (parseCell y x t))"
  using assms
  by (cases s; cases t)
     (auto simp: parseCell_def sameButSpeedDir_def hazardFixed_def Let_def split: option.splits)

lemma parse_related:
  assumes "sameButSpeedDir L1 L2"
  shows "sameButSpeedDir (fst (parse (L1, r1))) (fst (parse (L2, r2)))"
proof -
  have rc: "l_rows L1 = l_rows L2" "l_cols L1 = l_cols L2"
    using assms by (simp_all add: sameButSpeedDir_def)
  let ?R = "\<lambda>s t. sameButSpeedDir (fst s) (fst t)"
  have row: "?R (fold (\<lambda>x. parseCell y x) xs s) (fold (\<lambda>x. parseCell y x) xs t)"
    if "?R s t" for y xs s t
    using that by (rule fold_related [where R = ?R, rotated]) (rule parseCell_related)
  have "?R (fold (\<lambda>y. fold (\<lambda>x. parseCell y x) [0..<l_cols L2]) [0..<l_rows L2] (L1, r1))
           (fold (\<lambda>y. fold (\<lambda>x. parseCell y x) [0..<l_cols L2]) [0..<l_rows L2] (L2, r2))"
    by (rule fold_related [where R = ?R]) (use assms row in auto)
  then show ?thesis by (simp add: parse_def rc)
qed

lemma Level_new_None: "Level_new tmpl r = None \<longleftrightarrow> tmpl = []"
  by (simp add: Level_new_def split: list.splits)

lemma Level_new_related:
  assumes "Level_new tmpl r1 = Some L1" and "Level_new tmpl r2 = Some L2"
  shows "sameButSpeedDir L1 L2"
proof -
  have "sameButSpeedDir (fst (parse (L, r1))) (fst (parse (L, r2)))" for L
    by (rule parse_related) (simp add: sameButSpeedDir_def)
  then show ?thesis
    using assms by (auto simp: Level_new_def split: list.splits)
qed

lemma patrolLevel_new: "Level_new patrolTemplate patrolRng = Some patrolLevel"
  by (simp add: patrolTemplate_def patrolRng_def patrolLevel_def Level_new_def parse_def
      parseCell_def cellAt_def setTile_def upt_rec_numeral Let_def)

lemma patrolLevel_new':
  "Level_new patrolTemplate patrolRng' =
     Some (patrolLevel\<lparr>l_hazards := [(hd (l_hazards patrolLevel))\<lparr>hz_dir := 1\<rparr>]\<rparr>)"
  by (simp add: patrolTemplate_def patrolRng'_def patrolLevel_def Level_new_def parse_def
      parseCell_def cellAt_def setTile_def upt_rec_numeral Let_def)

text \<open>
  C5, as the code has it. Two instances built from one template with two random streams are
  both built or both fail, and differ at most in the speed and in the initial direction of
  their moving hazards: the tile layout, the dimensions, the spawn point, the coins and, of
  every hazard, the type, the base position, the position, the size and the range are the same.
\<close>

theorem Level_new_random_only_speed_dir:
  "(case (Level_new tmpl r1, Level_new tmpl r2) of
      (Some L1, Some L2) \<Rightarrow> sameButSpeedDir L1 L2
    | (None, None) \<Rightarrow> True
    | _ \<Rightarrow> False)"
proof (cases tmpl)
  case Nil
  then show ?thesis by (simp add: Level_new_def)
next
  case (Cons row0 rest)
  then obtain L1 L2 where "Level_new tmpl r1 = Some L1" "Level_new tmpl r2 = Some L2"
    by (simp add: Level_new_def)
  then show ?thesis using Level_new_related by simp
qed

text \<open>
  C5, as the claim has it, fails: the initial direction of a hazard is drawn from the random
  source too. Two streams that give the hazard of the example the same speed give it opposite
  directions.
\<close>

theorem Level_new_direction_is_random:
  "\<not> (case (Level_new patrolTemplate patrolRng, Level_new patrolTemplate patrolRng') of
        (Some L1, Some L2) \<Rightarrow> sameButSpeed L1 L2
      | (None, None) \<Rightarrow> True
      | _ \<Rightarrow> False)"
  by (simp add: patrolLevel_new patrolLevel_new' sameButSpeed_def patrolLevel_def)

subsection \<open>Moving hazards\<close>

lemma updateHazard_ok: "hazardOk hz \<Longrightarrow> hazardOk (updateHazard hz)"
  by (auto simp: hazardOk_def updateHazard_def Let_def)

lemma parseCell_hazards_ok:
  assumes "list_all hazardOk (l_hazards (fst s)) \<and> l_tileSize (fst s) = 40"
  shows "list_all hazardOk (l_hazards (fst (parseCell y x s))) \<and>
         l_tileSize (fst (parseCell y x s)) = 40"
  using assms
  by (cases s) (auto simp: parseCell_def hazardOk_def Let_def split: option.splits)

lemma parse_hazards_ok:
  assumes "list_all hazardOk (l_hazards L)" and "l_tileSize L = 40"
  shows "list_all hazardOk (l_hazards (fst (parse (L, r))))"
proof -
  let ?P = "\<lambda>s. list_all hazardOk (l_hazards (fst s)) \<and> l_tileSize (fst s) = 40"
  have row: "?P (fold (\<lambda>x. parseCell y x) xs s)" if "?P s" for y xs s
    using that by (rule fold_invariant [where P = ?P, rotated]) (rule parseCell_hazards_ok)
  have "?P (fold (\<lambda>y. fold (\<lambda>x. parseCell y x) [0..<l_cols L]) [0..<l_rows L] (L, r))"
    by (rule fold_invariant [where P = ?P]) (use assms row in auto)
  then show ?thesis by (simp add: parse_def)
qed

lemma Level_new_hazards_ok:
  "Level_new tmpl r = Some L \<Longrightarrow> list_all hazardOk (l_hazards L)"
  by (auto simp: Level_new_def parse_hazards_ok split: list.splits)

lemma updateHazards_ok:
  "list_all hazardOk (l_hazards L) \<Longrightarrow> list_all hazardOk (l_hazards (updateHazards dt L))"
  by (simp add: updateHazards_def list_all_iff updateHazard_ok)

lemma fold_updateHazards_ok:
  "list_all hazardOk (l_hazards L) \<Longrightarrow>
   list_all hazardOk (l_hazards (fold updateHazards dts L))"
  by (induction dts arbitrary: L) (simp_all add: updateHazards_ok)

text \<open>
  C6. Take a level as \<^verbatim>\<open>new Level\<close> builds it, any number of \<^verbatim>\<open>updateHazards\<close> ticks
  after that (one for each element of \<open>dts\<close>), and the hazard \<open>hz\<close> at any index then. It
  is within \<open>[baseX - range, baseX + range]\<close> and its direction is \<open>1\<close> or \<open>- 1\<close>. The
  next tick leaves base and range alone; if the step \<open>x + dir * speed\<close> would pass a boundary,
  the hazard is put exactly on that boundary and its direction is negated; otherwise it takes
  the step and keeps its direction.
\<close>

theorem hazard_patrol:
  assumes "Level_new tmpl r = Some L0"
    and "L = fold updateHazards dts L0"
    and "i < length (l_hazards L)"
    and "hz = l_hazards L ! i"
    and "hz' = l_hazards (updateHazards dt L) ! i"
    and "lo = hz_baseX hz - hz_range hz"
    and "hi = hz_baseX hz + hz_range hz"
    and "x1 = hz_x hz + hz_dir hz * hz_speed hz"
  shows "lo \<le> hz_x hz \<and> hz_x hz \<le> hi \<and> \<bar>hz_dir hz\<bar> = 1 \<and>
         hz_baseX hz' = hz_baseX hz \<and> hz_range hz' = hz_range hz \<and>
         (x1 < lo \<longrightarrow> hz_x hz' = lo \<and> hz_dir hz' = - hz_dir hz) \<and>
         (hi < x1 \<longrightarrow> hz_x hz' = hi \<and> hz_dir hz' = - hz_dir hz) \<and>
         (lo \<le> x1 \<and> x1 \<le> hi \<longrightarrow> hz_x hz' = x1 \<and> hz_dir hz' = hz_dir hz)"
proof -
  have "list_all hazardOk (l_hazards L)"
    using assms(1,2) by (simp add: Level_new_hazards_ok fold_updateHazards_ok)
  then have ok: "hazardOk hz"
    using assms(3,4) by (simp add: list_all_length)
  have step: "hz' = updateHazard hz"
    using assms(3,4,5) by (simp add: updateHazards_def)
  show ?thesis
    using ok unfolding step assms(6,7,8)
    by (auto simp: hazardOk_def updateHazard_def Let_def)
qed

text \<open>
  The hazard of the example, 48 ticks after the level is built, stands on its left boundary
  \<open>- 40\<close>, still heading left; tick 49 would carry it to \<open>- 42.5\<close>, and leaves it on the
  boundary, heading right.
\<close>

lemma patrol_48_ticks:
  "l_hazards (fold updateHazards patrolTicks patrolLevel) = [patrolAtEdge]"
  by code_simp

lemma patrol_49th_tick:
  "l_hazards (updateHazards 1 (fold updateHazards patrolTicks patrolLevel)) =
     [patrolAtEdge\<lparr>hz_dir := 1\<rparr>]"
proof -
  have "map updateHazard [patrolAtEdge] = [patrolAtEdge\<lparr>hz_dir := 1\<rparr>]"
    by code_simp
  then show ?thesis by (simp add: updateHazards_def patrol_48_ticks)
qed

theorem hazard_patrol_witness:
  "Level_new patrolTemplate patrolRng = Some patrolLevel \<and>
   l_hazards (fold updateHazards patrolTicks patrolLevel) ! 0 = patrolAtEdge \<and>
   hz_x patrolAtEdge + hz_dir patrolAtEdge * hz_speed patrolAtEdge
     < hz_baseX patrolAtEdge - hz_range patrolAtEdge \<and>
   hz_x patrolAtEdge = - 40 \<and>
   hz_x (l_hazards (updateHazards 1 (fold updateHazards patrolTicks patrolLevel)) ! 0) = - 40 \<and>
   hz_dir (l_hazards (updateHazards 1 (fold updateHazards patrolTicks patrolLevel)) ! 0) = 1"
proof -
  have i: "0 < length (l_hazards (fold updateHazards patrolTicks patrolLevel))"
    by (simp add: patrol_48_ticks)
  have e: "hz_x patrolAtEdge = - 40" "hz_dir patrolAtEdge = - 1" "hz_speed patrolAtEdge = 5 / 2"
    "hz_baseX patrolAtEdge = 80" "hz_range patrolAtEdge = 120"
    by (simp_all add: patrolAtEdge_def)
  from hazard_patrol [OF patrolLevel_new refl i refl refl refl refl refl, of 1]
  show ?thesis
    by (simp add: patrolLevel_new patrol_48_ticks patrol_49th_tick e)
qed

subsection \<open>Collision: no query fails\<close>

lemma parseCell_keeps:
  "l_rows (fst (parseCell y x s)) = l_rows (fst s)"
  "length (l_map (fst (parseCell y x s))) = length (l_map (fst s))"
  by (cases s; simp add: parseCell_def Let_def split: option.splits)+

lemma parse_wf:
  assumes "levelWf L"
  shows "levelWf (fst (parse (L, r)))"
proof -
  let ?P = "\<lambda>s. levelWf (fst s)"
  have cell: "?P (parseCell y x s)" if "?P s" for y x s
    using that by (simp add: levelWf_def parseCell_keeps)
  have row: "?P (fold (\<lambda>x. parseCell y x) xs s)" if "?P s" for y xs s
    using that by (rule fold_invariant [where P = ?P, rotated]) (rule cell)
  have "?P (fold (\<lambda>y. fold (\<lambda>x. parseCell y x) [0..<l_cols L]) [0..<l_rows L] (L, r))"
    by (rule fold_invariant [where P = ?P]) (use assms row in auto)
  then show ?thesis by (simp add: parse_def)
qed

lemma Level_new_wf: "Level_new tmpl r = Some L \<Longrightarrow> levelWf L"
  by (auto simp: Level_new_def split: list.splits intro!: parse_wf) (simp add: levelWf_def)

lemma parseCell_tileSize: "l_tileSize (fst (parseCell y x s)) = l_tileSize (fst s)"
  by (cases s) (simp add: parseCell_def Let_def split: option.splits)

lemma parse_tileSize: "l_tileSize (fst (parse (L, r))) = l_tileSize L"
proof -
  let ?P = "\<lambda>s. l_tileSize (fst s) = l_tileSize L"
  have row: "?P (fold (\<lambda>x. parseCell y x) xs s)" if "?P s" for y xs s
    using that by (rule fold_invariant [where P = ?P, rotated]) (simp add: parseCell_tileSize)
  have "?P (fold (\<lambda>y. fold (\<lambda>x. parseCell y x) [0..<l_cols L]) [0..<l_rows L] (L, r))"
    by (rule fold_invariant [where P = ?P]) (use row in auto)
  then show ?thesis by (simp add: parse_def)
qed

lemma Level_new_tileSize: "Level_new tmpl r = Some L \<Longrightarrow> l_tileSize L = 40"
  by (auto simp: Level_new_def parse_tileSize split: list.splits)

lemma Player_new_size:
  "p_width (Player_new x y c) = 24" "p_height (Player_new x y c) = 40"
  by (simp_all add: Player_new_def)

lemma checkTile_outside:
  "ty < 0 \<or> ty \<ge> int (l_rows (cs_level st)) \<or> tx < 0 \<or> tx \<ge> int (l_cols (cs_level st))
   \<Longrightarrow> checkTile tx ty horizontal st = Some st"
  by (simp add: checkTile_def Let_def)

lemma checkTile_keeps:
  assumes "checkTile tx ty horizontal st = Some st'"
  shows "l_tileSize (cs_level st') = l_tileSize (cs_level st)"
    and "l_rows (cs_level st') = l_rows (cs_level st)"
    and "l_cols (cs_level st') = l_cols (cs_level st)"
    and "length (l_map (cs_level st')) = length (l_map (cs_level st))"
    and "p_width (cs_player st') = p_width (cs_player st)"
    and "p_height (cs_player st') = p_height (cs_player st)"
  using assms
  by (auto simp: checkTile_def Let_def split: if_splits option.splits)

lemma checkTile_defined:
  assumes "levelWf (cs_level st)"
  shows "\<exists>st'. checkTile tx ty horizontal st = Some st'"
  using assms
  by (auto simp: checkTile_def levelWf_def Let_def split: option.splits)

lemma checkTile_wf:
  assumes "checkTile tx ty horizontal st = Some st'" and "levelWf (cs_level st)"
  shows "levelWf (cs_level st')"
  using checkTile_keeps(2,4) [OF assms(1)] assms(2) by (simp add: levelWf_def)

text \<open>The two sweeps as one loop each.\<close>

lemma horizontalPass_eq:
  "horizontalPass st =
     (if p_velX (cs_player st) = 0 then Some st
      else forLoop
             (\<lambda>row. checkTile
                (if p_velX (cs_player st) > 0
                 then \<lfloor>(c_x (cs_coll st) + p_width (cs_player st)) / l_tileSize (cs_level st)\<rfloor>
                 else \<lfloor>c_x (cs_coll st) / l_tileSize (cs_level st)\<rfloor>) row True)
             \<lfloor>c_y (cs_coll st) / l_tileSize (cs_level st)\<rfloor>
             \<lfloor>(c_y (cs_coll st) + p_height (cs_player st) - 1) / l_tileSize (cs_level st)\<rfloor> st)"
  by (simp add: horizontalPass_def Let_def)

lemma verticalSweep_eq:
  "verticalSweep left right st =
     (if p_velY (cs_player st) = 0 then Some st
      else forLoop
             (\<lambda>col. checkTile col
                (if p_velY (cs_player st) > 0
                 then \<lfloor>(c_y (cs_coll st) + p_height (cs_player st)) / l_tileSize (cs_level st)\<rfloor>
                 else \<lfloor>c_y (cs_coll st) / l_tileSize (cs_level st)\<rfloor>) False)
             left right st)"
  by (simp add: verticalSweep_def Let_def)

text \<open>What every call of \<^verbatim>\<open>checkTile\<close> keeps, a sweep keeps.\<close>

lemma horizontalPass_invariant:
  assumes "horizontalPass st = Some st'"
    and "\<And>tx ty s s'. I s \<Longrightarrow> checkTile tx ty True s = Some s' \<Longrightarrow> I s'"
    and "I st"
  shows "I st'"
proof (cases "p_velX (cs_player st) = 0")
  case True
  then show ?thesis using assms(1,3) by (simp add: horizontalPass_eq)
next
  case False
  then obtain col top bottom
    where "forLoop (\<lambda>row. checkTile col row True) top bottom st = Some st'"
    using assms(1) by (simp add: horizontalPass_eq)
  then show ?thesis
    by (rule forLoop_invariant) (use assms(2,3) in auto)
qed

lemma verticalSweep_invariant:
  assumes "verticalSweep left right st = Some st'"
    and "\<And>tx ty s s'. I s \<Longrightarrow> checkTile tx ty False s = Some s' \<Longrightarrow> I s'"
    and "I st"
  shows "I st'"
proof (cases "p_velY (cs_player st) = 0")
  case True
  then show ?thesis using assms(1,3) by (simp add: verticalSweep_eq)
next
  case False
  then obtain row
    where "forLoop (\<lambda>col. checkTile col row False) left right st = Some st'"
    using assms(1) by (simp add: verticalSweep_eq)
  then show ?thesis
    by (rule forLoop_invariant) (use assms(2,3) in auto)
qed

lemma horizontalPass_keeps:
  assumes "horizontalPass st = Some st'"
  shows "l_tileSize (cs_level st') = l_tileSize (cs_level st)"
    and "p_width (cs_player st') = p_width (cs_player st)"
    and "p_height (cs_player st') = p_height (cs_player st)"
    and "c_y (cs_coll st') = c_y (cs_coll st)"
proof -
  let ?I = "\<lambda>s. l_tileSize (cs_level s) = l_tileSize (cs_level st) \<and>
                p_width (cs_player s) = p_width (cs_player st) \<and>
                p_height (cs_player s) = p_height (cs_player st) \<and>
                c_y (cs_coll s) = c_y (cs_coll st)"
  have "?I st'"
  proof (rule horizontalPass_invariant [OF assms, where I = ?I])
    fix tx ty s s'
    assume "?I s" and c: "checkTile tx ty True s = Some s'"
    moreover have "c_y (cs_coll s') = c_y (cs_coll s)"
      using c by (auto simp: checkTile_def Let_def split: if_splits option.splits)
    ultimately show "?I s'" using checkTile_keeps(1,5,6) [OF c] by simp
  qed simp
  then show "l_tileSize (cs_level st') = l_tileSize (cs_level st)"
    and "p_width (cs_player st') = p_width (cs_player st)"
    and "p_height (cs_player st') = p_height (cs_player st)"
    and "c_y (cs_coll st') = c_y (cs_coll st)"
    by simp_all
qed

text \<open>
  A horizontal query leaves \<^verbatim>\<open>px\<close>, the wall flag and the horizontal speed alone, or it
  is a hit: the speed was not zero and is zero now, the wall flag is set, and \<^verbatim>\<open>px\<close> is
  flush to the tile, on its left for a player that moved right, on its right otherwise.
\<close>

lemma checkTile_flush:
  assumes "checkTile tx ty True st = Some st'"
  shows "(c_x (cs_coll st') = c_x (cs_coll st) \<and> c_onWall (cs_coll st') = c_onWall (cs_coll st) \<and>
          p_velX (cs_player st') = p_velX (cs_player st)) \<or>
         (0 < p_velX (cs_player st) \<and> p_velX (cs_player st') = 0 \<and> c_onWall (cs_coll st') \<and>
          c_x (cs_coll st') =
            real_of_int tx * l_tileSize (cs_level st) - p_width (cs_player st)) \<or>
         (p_velX (cs_player st) < 0 \<and> p_velX (cs_player st') = 0 \<and> c_onWall (cs_coll st') \<and>
          c_x (cs_coll st') =
            real_of_int tx * l_tileSize (cs_level st) + l_tileSize (cs_level st))"
  using assms
  by (auto simp: checkTile_def Let_def split: if_splits option.splits)

lemma horizontalPass_x:
  assumes "horizontalPass st = Some st'"
  shows "c_x (cs_coll st') = c_x (cs_coll st) \<or>
         (0 < p_velX (cs_player st) \<and> c_onWall (cs_coll st') \<and>
          c_x (cs_coll st') =
            real_of_int \<lfloor>(c_x (cs_coll st) + p_width (cs_player st)) / l_tileSize (cs_level st)\<rfloor>
              * l_tileSize (cs_level st) - p_width (cs_player st)) \<or>
         (p_velX (cs_player st) < 0 \<and> c_onWall (cs_coll st') \<and>
          c_x (cs_coll st') =
            real_of_int \<lfloor>c_x (cs_coll st) / l_tileSize (cs_level st)\<rfloor>
              * l_tileSize (cs_level st) + l_tileSize (cs_level st))"
proof (cases "p_velX (cs_player st) = 0")
  case True
  then show ?thesis using assms by (simp add: horizontalPass_eq)
next
  case False
  define ts where "ts = l_tileSize (cs_level st)"
  define w where "w = p_width (cs_player st)"
  define v0 where "v0 = p_velX (cs_player st)"
  define x0 where "x0 = c_x (cs_coll st)"
  define col where "col = (if v0 > 0 then \<lfloor>(x0 + w) / ts\<rfloor> else \<lfloor>x0 / ts\<rfloor>)"
  define J where "J = (\<lambda>s :: cstate. l_tileSize (cs_level s) = ts \<and> p_width (cs_player s) = w \<and>
    ((c_x (cs_coll s) = x0 \<and> p_velX (cs_player s) = v0) \<or>
     (0 < v0 \<and> p_velX (cs_player s) = 0 \<and> c_onWall (cs_coll s) \<and>
      c_x (cs_coll s) = real_of_int col * ts - w) \<or>
     (v0 < 0 \<and> p_velX (cs_player s) = 0 \<and> c_onWall (cs_coll s) \<and>
      c_x (cs_coll s) = real_of_int col * ts + ts)))"
  have loop: "forLoop (\<lambda>row. checkTile col row True)
                \<lfloor>c_y (cs_coll st) / ts\<rfloor> \<lfloor>(c_y (cs_coll st) + p_height (cs_player st) - 1) / ts\<rfloor> st
              = Some st'"
    using assms False
    by (cases "0 < p_velX (cs_player st)")
       (simp_all add: horizontalPass_eq col_def v0_def x0_def w_def ts_def)
  have "J st'"
  proof (rule forLoop_invariant [OF loop, where I = J])
    show "J st" by (simp add: J_def ts_def w_def x0_def v0_def)
  next
    fix row s s'
    assume J: "J s" and c: "checkTile col row True s = Some s'"
    from checkTile_flush [OF c] checkTile_keeps(1,5) [OF c] J
    show "J s'" unfolding J_def by auto
  qed
  then show ?thesis
    unfolding J_def col_def v0_def x0_def w_def ts_def by auto
qed


subsection \<open>Collision: when the sweeps return\<close>

text \<open>
  Positions up to \<open>2 ^ 53\<close> in size give tile indices that a double counts through exactly.
\<close>

lemma two_53: "(2::real) ^ 53 = 9007199254740992" "(2::int) ^ 53 = 9007199254740992"
  by simp_all

lemma index_in_range:
  fixes v :: real
  assumes "\<bar>v\<bar> \<le> 2 ^ 53 + 80"
  shows "- (2 ^ 53) < \<lfloor>v / 40\<rfloor>" and "\<lfloor>v / 40\<rfloor> < 2 ^ 53 - 1"
proof -
  have v: "- 9007199254741072 \<le> v" "v \<le> 9007199254741072"
    using assms by (simp_all add: two_53 abs_le_iff)
  have "of_int (- 9007199254740992) + 1 \<le> v / 40" using v(1) by simp
  then have "- 9007199254740992 < \<lfloor>v / 40\<rfloor>" by (simp only: less_floor_iff)
  then show "- (2 ^ 53) < \<lfloor>v / 40\<rfloor>" by (simp add: two_53)
  have "v / 40 < of_int 9007199254740991" using v(2) by simp
  then have "\<lfloor>v / 40\<rfloor> < 9007199254740991" by (simp only: floor_less_iff)
  then show "\<lfloor>v / 40\<rfloor> < 2 ^ 53 - 1" by (simp add: two_53)
qed

lemma floor_tile:
  fixes v :: real
  shows "real_of_int \<lfloor>v / 40\<rfloor> * 40 \<le> v" and "v < real_of_int \<lfloor>v / 40\<rfloor> * 40 + 40"
proof -
  have "real_of_int \<lfloor>v / 40\<rfloor> \<le> v / 40" by (rule of_int_floor_le)
  then show "real_of_int \<lfloor>v / 40\<rfloor> * 40 \<le> v" by simp
  have "v / 40 < real_of_int \<lfloor>v / 40\<rfloor> + 1" by linarith
  then have "v / 40 * 40 < (real_of_int \<lfloor>v / 40\<rfloor> + 1) * 40" by (simp only: mult_less_cancel_right) simp
  then show "v < real_of_int \<lfloor>v / 40\<rfloor> * 40 + 40" by (simp add: algebra_simps)
qed

lemma horizontalPass_defined:
  assumes "levelWf (cs_level st)" and "l_tileSize (cs_level st) = 40"
    and "0 \<le> p_height (cs_player st)" and "p_height (cs_player st) \<le> 40"
    and "\<bar>c_y (cs_coll st)\<bar> \<le> 2 ^ 53"
  shows "\<exists>st'. horizontalPass st = Some st' \<and> levelWf (cs_level st')"
proof (cases "p_velX (cs_player st) = 0")
  case True
  then show ?thesis using assms(1) by (simp add: horizontalPass_eq)
next
  case False
  have top: "- (2 ^ 53) < \<lfloor>c_y (cs_coll st) / 40\<rfloor>"
    using assms(5) by (intro index_in_range) simp
  have bottom: "\<lfloor>(c_y (cs_coll st) + p_height (cs_player st) - 1) / 40\<rfloor> < 2 ^ 53 - 1"
    using assms(3,4,5) by (intro index_in_range) (simp add: abs_le_iff)
  have "\<exists>st'. forLoop (\<lambda>row. checkTile col row True) \<lfloor>c_y (cs_coll st) / 40\<rfloor>
                 \<lfloor>(c_y (cs_coll st) + p_height (cs_player st) - 1) / 40\<rfloor> st = Some st' \<and>
               levelWf (cs_level st')" for col
    by (rule forLoop_defined [OF top bottom, where I = "\<lambda>s. levelWf (cs_level s)"])
       (use assms(1) checkTile_defined checkTile_wf in blast)+
  then show ?thesis using False by (simp add: horizontalPass_eq assms(2))
qed

lemma verticalSweep_defined:
  assumes "levelWf (cs_level st)" and "- (2 ^ 53) < left" and "right < 2 ^ 53 - 1"
  shows "\<exists>st'. verticalSweep left right st = Some st' \<and> levelWf (cs_level st')"
proof (cases "p_velY (cs_player st) = 0")
  case True
  then show ?thesis using assms(1) by (simp add: verticalSweep_eq)
next
  case False
  have "\<exists>st'. forLoop (\<lambda>col. checkTile col row False) left right st = Some st' \<and>
               levelWf (cs_level st')" for row
    by (rule forLoop_defined [OF assms(2,3), where I = "\<lambda>s. levelWf (cs_level s)"])
       (use assms(1) checkTile_defined checkTile_wf in blast)+
  then show ?thesis using False by (simp add: verticalSweep_eq)
qed

lemma verticalPass_defined:
  assumes "levelWf (cs_level st)" and "l_tileSize (cs_level st) = 40"
    and "p_width (cs_player st) = 24" and "\<bar>c_x (cs_coll st)\<bar> \<le> 2 ^ 53 + 40"
  shows "\<exists>st'. verticalPass st = Some st' \<and> levelWf (cs_level st')"
proof -
  have left: "- (2 ^ 53) < \<lfloor>c_x (cs_coll st) / 40\<rfloor>"
    using assms(4) by (intro index_in_range) simp
  have right: "\<lfloor>(c_x (cs_coll st) + 24 - 1) / 40\<rfloor> < 2 ^ 53 - 1"
    using assms(4) by (intro index_in_range) (simp add: abs_le_iff)
  from verticalSweep_defined [OF assms(1) left right] show ?thesis
    by (simp add: verticalPass_def Let_def assms(2,3))
qed

lemma coinPass_level [simp]:
  "l_map (cs_level (coinPass st)) = l_map (cs_level st)"
  "l_rows (cs_level (coinPass st)) = l_rows (cs_level st)"
  by (simp_all add: coinPass_def Let_def split: prod.splits)

lemma coinPass_player [simp]: "cs_player (coinPass st) = cs_player st"
  by (simp add: coinPass_def Let_def split: prod.splits)

lemma hazardPass_level [simp]: "cs_level (hazardPass st) = cs_level st"
  by (simp add: hazardPass_def Let_def)

lemma hazardPass_player [simp]: "cs_player (hazardPass st) = cs_player st"
  by (simp add: hazardPass_def Let_def)

lemma collide_defined:
  assumes "levelWf L" and "l_tileSize L = 40" and "p_width p = 24"
    and "0 \<le> p_height p" and "p_height p \<le> 40"
    and "\<bar>nextX\<bar> \<le> 2 ^ 53" and "\<bar>nextY\<bar> \<le> 2 ^ 53"
  shows "\<exists>st. collide L p nextX nextY = Some st \<and> levelWf (cs_level st)"
proof -
  define st0 where "st0 = collideInit L p nextX nextY"
  have init: "cs_level st0 = L" "cs_player st0 = p" "c_x (cs_coll st0) = nextX"
    "c_y (cs_coll st0) = nextY"
    by (simp_all add: st0_def collideInit_def)
  from horizontalPass_defined [of st0] assms init obtain st1
    where st1: "horizontalPass st0 = Some st1" "levelWf (cs_level st1)"
    by auto
  have k: "l_tileSize (cs_level st1) = 40" "p_width (cs_player st1) = 24"
    using horizontalPass_keeps(1,2) [OF st1(1)] assms(2,3) init by simp_all
  have "\<bar>c_x (cs_coll st1) - nextX\<bar> \<le> 40"
    using horizontalPass_x [OF st1(1)] floor_tile [of "nextX + 24"] floor_tile [of nextX]
    by (auto simp: init assms(2,3))
  then have "\<bar>c_x (cs_coll st1)\<bar> \<le> 2 ^ 53 + 40"
    using assms(6) by linarith
  from verticalPass_defined [OF st1(2) k this] obtain st2
    where st2: "verticalPass st1 = Some st2" "levelWf (cs_level st2)"
    by blast
  have "levelWf (cs_level (hazardPass (coinPass st2)))"
    using st2(2) by (simp add: levelWf_def)
  then show ?thesis by (simp add: collide_def st0_def [symmetric] st1 st2)
qed

lemma wallLevel_new:
  "Level_new [''     '', ''   # '', ''   S '', ''#####''] r = Some wallLevel"
  by (simp add: wallLevel_def Level_new_def parse_def parseCell_def cellAt_def setTile_def
      upt_rec_numeral Let_def)

text \<open>
  C9, as the code has it. Take a level whose \<^verbatim>\<open>rows\<close> is the number of rows of its map,
  as the constructor leaves it (\<open>Level_new_wf\<close>) and as \<^verbatim>\<open>collide\<close> keeps it. A tile
  query with a row or column index that is negative or not below \<^verbatim>\<open>rows\<close> or
  \<^verbatim>\<open>cols\<close> returns the state it was given: no correction, no flag, no exception. And
  for a tile size of 40 (\<open>Level_new_tileSize\<close>), a player 24 wide and at most 40 high
  (\<open>Player_new_size\<close>; a slide halves the height) and a proposed position with
  \<open>|nextX| \<le> 2 ^ 53\<close> and \<open>|nextY| \<le> 2 ^ 53\<close>, inside the level or not,
  \<^verbatim>\<open>collide\<close> returns a result.
\<close>

theorem collide_returns_in_range:
  assumes "levelWf L" and "l_tileSize L = 40" and "p_width p = 24"
    and "0 \<le> p_height p" and "p_height p \<le> 40"
    and "\<bar>nextX\<bar> \<le> 2 ^ 53" and "\<bar>nextY\<bar> \<le> 2 ^ 53"
  shows "(\<forall>tx ty horizontal st.
            cs_level st = L \<and>
            (ty < 0 \<or> ty \<ge> int (l_rows L) \<or> tx < 0 \<or> tx \<ge> int (l_cols L)) \<longrightarrow>
            checkTile tx ty horizontal st = Some st) \<and>
         (\<exists>st. collide L p nextX nextY = Some st \<and> levelWf (cs_level st))"
  using collide_defined [OF assms] checkTile_outside by blast

theorem collide_returns_in_range_witness:
  "levelWf wallLevel \<and>
   checkTile (- 1) 7 True (collideInit wallLevel wallPlayer (- 50) 300) =
     Some (collideInit wallLevel wallPlayer (- 50) 300) \<and>
   (\<exists>st. collide wallLevel wallPlayer (- 50) 300 = Some st \<and> levelWf (cs_level st))"
proof -
  have wf: "levelWf wallLevel"
    using wallLevel_new by (rule Level_new_wf)
  have h: "l_tileSize wallLevel = 40" "p_width wallPlayer = 24" "0 \<le> p_height wallPlayer"
    "p_height wallPlayer \<le> 40" "\<bar>- 50 :: real\<bar> \<le> 2 ^ 53" "\<bar>300 :: real\<bar> \<le> 2 ^ 53"
    by (simp_all add: wallLevel_def wallPlayer_def Player_new_def)
  have l: "cs_level (collideInit wallLevel wallPlayer (- 50) 300) = wallLevel"
    by (simp add: collideInit_def)
  from collide_returns_in_range [OF wf h] l wf
  show ?thesis by auto
qed

text \<open>
  C9, as the claim has it, fails: \<^verbatim>\<open>collide\<close> does not return for every proposed
  position. At \<open>nextY = 40 * 2 ^ 53\<close> the rows of the player start at \<open>2 ^ 53\<close>; the query
  there is out of range and returns at once, \<^verbatim>\<open>row++\<close> leaves the counter at \<open>2 ^ 53\<close>,
  which is still not above \<^verbatim>\<open>bottom\<close> (\<open>2 ^ 53\<close> in exact arithmetic, \<open>2 ^ 53 + 2\<close>
  as doubles round it), and the loop of the horizontal sweep never ends.
\<close>

theorem collide_never_returns_far_out:
  "levelWf wallLevel \<and> increment (2 ^ 53) = 2 ^ 53 \<and>
   \<lfloor>40 * 2 ^ 53 / (40 :: real)\<rfloor> = 2 ^ 53 \<and>
   \<lfloor>(40 * 2 ^ 53 + 40 - 1) / (40 :: real)\<rfloor> = 2 ^ 53 \<and>
   checkTile 3 (2 ^ 53) True (collideInit wallLevel wallPlayer 100 (40 * 2 ^ 53)) =
     Some (collideInit wallLevel wallPlayer 100 (40 * 2 ^ 53)) \<and>
   collide wallLevel wallPlayer 100 (40 * 2 ^ 53) = None"
proof -
  have wf: "levelWf wallLevel"
    using wallLevel_new by (rule Level_new_wf)
  have q: "checkTile 3 (2 ^ 53) True (collideInit wallLevel wallPlayer 100 (40 * 2 ^ 53)) =
           Some (collideInit wallLevel wallPlayer 100 (40 * 2 ^ 53))"
    by (rule checkTile_outside) (simp add: collideInit_def wallLevel_def)
  have top: "\<lfloor>40 * 2 ^ 53 / (40 :: real)\<rfloor> = 2 ^ 53" by simp
  have bottom: "\<lfloor>(40 * 2 ^ 53 + 40 - 1) / (40 :: real)\<rfloor> = 2 ^ 53"
    by (rule floor_unique) (simp_all add: two_53)
  define st0 where "st0 = collideInit wallLevel wallPlayer 100 (40 * 2 ^ 53)"
  have f: "p_velX (cs_player st0) = 4" "l_tileSize (cs_level st0) = 40"
    "c_y (cs_coll st0) = 40 * 2 ^ 53" "p_height (cs_player st0) = 40"
    by (simp_all add: st0_def collideInit_def wallPlayer_def wallLevel_def Player_new_def)
  have "horizontalPass st0 =
        forLoop (\<lambda>row. checkTile \<lfloor>(c_x (cs_coll st0) + p_width (cs_player st0)) / 40\<rfloor> row True)
          (2 ^ 53) (2 ^ 53) st0"
    unfolding horizontalPass_eq f top bottom by simp
  also have "\<dots> = None"
    by (rule forLoop_stalls [OF increment_stalls]) simp
  finally have "collide wallLevel wallPlayer 100 (40 * 2 ^ 53) = None"
    by (simp add: collide_def st0_def)
  with wf increment_stalls top bottom q show ?thesis by simp
qed


subsection \<open>Collision: which columns the vertical sweep scans\<close>





subsection \<open>What collide does to the velocity\<close>

lemma slowed_refl: "slowed p p"
  by (simp add: slowed_def)

lemma slowed_trans: "slowed p p' \<Longrightarrow> slowed p' p'' \<Longrightarrow> slowed p p''"
  by (auto simp: slowed_def)

lemma checkTile_slowed:
  "checkTile tx ty horizontal st = Some st' \<Longrightarrow> slowed (cs_player st) (cs_player st')"
  by (auto simp: checkTile_def slowed_def Let_def split: if_splits option.splits)

lemma horizontalPass_slowed:
  assumes "horizontalPass st = Some st'"
  shows "slowed (cs_player st) (cs_player st')"
  by (rule horizontalPass_invariant [OF assms, where I = "\<lambda>s. slowed (cs_player st) (cs_player s)"])
     (auto intro: slowed_refl slowed_trans checkTile_slowed)

lemma verticalPass_slowed:
  assumes "verticalPass st = Some st'"
  shows "slowed (cs_player st) (cs_player st')"
proof -
  from assms obtain left right where "verticalSweep left right st = Some st'"
    by (simp add: verticalPass_def Let_def)
  then show ?thesis
    by (rule verticalSweep_invariant [where I = "\<lambda>s. slowed (cs_player st) (cs_player s)"])
       (auto intro: slowed_refl slowed_trans checkTile_slowed)
qed

lemma collide_slowed:
  assumes "collide L p nextX nextY = Some st"
  shows "slowed p (cs_player st)"
proof -
  from assms obtain st1 st2
    where st1: "horizontalPass (collideInit L p nextX nextY) = Some st1"
      and st2: "verticalPass st1 = Some st2"
      and st: "st = hazardPass (coinPass st2)"
    by (auto simp: collide_def split: option.splits)
  have "slowed (cs_player (collideInit L p nextX nextY)) (cs_player st2)"
    using slowed_trans [OF horizontalPass_slowed [OF st1] verticalPass_slowed [OF st2]] .
  then show ?thesis by (simp add: st collideInit_def)
qed

subsection \<open>The velocity of a tick\<close>

lemma clamp_abs:
  fixes v m :: real
  assumes "0 \<le> m"
  shows "\<bar>if (if m < v then m else v) < - m then - m else (if m < v then m else v)\<bar> \<le> m"
  using assms by auto

lemma update_move_bound:
  assumes "p_maxSpeed p = 5.5"
  shows "\<bar>p_velX (update_move inp p)\<bar> \<le> 5.5"
proof -
  have "0 \<le> p_maxSpeed p" using assms by simp
  from clamp_abs [OF this] show ?thesis
    unfolding assms [symmetric] by (simp add: update_move_def Let_def)
qed

lemma update_move_fields [simp]:
  "p_maxSpeed (update_move inp p) = p_maxSpeed p"
  "p_wallDir (update_move inp p) = p_wallDir p"
  by (simp_all add: update_move_def Let_def)

lemma update_slideStart_fields [simp]:
  "p_maxSpeed (update_slideStart inp p) = p_maxSpeed p"
  "p_wallDir (update_slideStart inp p) = p_wallDir p"
  by (simp_all add: update_slideStart_def Let_def)

lemma update_slideStart_idle: "\<not> slideStarts inp p \<Longrightarrow> update_slideStart inp p = p"
  by (simp add: update_slideStart_def)

lemma update_slideStart_boost:
  "slideStarts inp p \<Longrightarrow>
   p_sliding (update_slideStart inp p) \<and> \<bar>p_velX (update_slideStart inp p)\<bar> = \<bar>p_velX p\<bar> + 1"
  by (auto simp: update_slideStart_def slideStarts_def Let_def)

lemma update_sliding_fields [simp]:
  "p_maxSpeed (update_sliding dt inp p) = p_maxSpeed p"
  "p_wallDir (update_sliding dt inp p) = p_wallDir p"
  by (simp_all add: update_sliding_def Let_def)

lemma update_sliding_velX:
  "p_velX (update_sliding dt inp p) = (if p_sliding p then p_velX p * 0.98 else p_velX p)"
  by (simp add: update_sliding_def Let_def)

lemma update_dive_fields [simp]:
  "p_maxSpeed (update_dive inp p) = p_maxSpeed p"
  "p_wallDir (update_dive inp p) = p_wallDir p"
  "p_velX (update_dive inp p) = p_velX p"
  by (simp_all add: update_dive_def)

lemma update_coyote_fields [simp]:
  "p_maxSpeed (update_coyote dt p) = p_maxSpeed p"
  "p_wallDir (update_coyote dt p) = p_wallDir p"
  "p_velX (update_coyote dt p) = p_velX p"
  by (simp_all add: update_coyote_def)

lemma update_jumpBuffer_fields [simp]:
  "p_maxSpeed (snd (update_jumpBuffer dt (inp, p))) = p_maxSpeed p"
  "p_wallDir (snd (update_jumpBuffer dt (inp, p))) = p_wallDir p"
  "p_velX (snd (update_jumpBuffer dt (inp, p))) = p_velX p"
  by (simp_all add: update_jumpBuffer_def Let_def split: prod.splits)

lemma update_jump_velX:
  "p_velX (update_jump p) = p_velX p \<or>
   p_velX (update_jump p) = - p_wallDir p * (p_maxSpeed p * 0.8)"
  by (simp add: update_jump_def)

lemma update_gravity_velX [simp]: "p_velX (update_gravity p) = p_velX p"
  by (simp add: update_gravity_def Let_def)

lemma update_velocity_velY: "p_velY (snd (update_velocity dt inp p)) \<le> 15"
  by (simp add: update_velocity_def update_gravity_def Let_def split: prod.splits)

lemma wallJump_speed:
  fixes d :: real
  assumes "\<bar>d\<bar> \<le> 1"
  shows "\<bar>- d * (5.5 * 0.8)\<bar> \<le> 4.4"
proof -
  have "\<bar>- d * (5.5 * 0.8)\<bar> = \<bar>d\<bar> * 4.4" by (simp add: abs_mult)
  also have "\<dots> \<le> 1 * 4.4" using assms by (intro mult_right_mono) simp_all
  finally show ?thesis by simp
qed

lemma update_velocity_velX:
  assumes "p_maxSpeed p = 5.5" and "\<bar>p_wallDir p\<bar> \<le> 1"
  shows "\<bar>p_velX (snd (update_velocity dt inp p))\<bar> \<le> 6.37"
    and "\<not> slideStarts inp (update_move inp p) \<Longrightarrow>
         \<bar>p_velX (snd (update_velocity dt inp p))\<bar> \<le> 5.5"
proof -
  define p1 where "p1 = update_move inp p"
  define p2 where "p2 = update_slideStart inp p1"
  define p3 where "p3 = update_sliding dt inp p2"
  define p6 where "p6 = snd (update_jumpBuffer dt (inp, update_coyote dt (update_dive inp p3)))"
  have res: "snd (update_velocity dt inp p) = update_gravity (update_jump p6)"
    by (simp add: update_velocity_def Let_def p6_def p3_def p2_def p1_def split: prod.splits)
  have b1: "\<bar>p_velX p1\<bar> \<le> 5.5"
    unfolding p1_def using assms(1) by (rule update_move_bound)
  have v6: "p_velX p6 = p_velX p3" and m6: "p_maxSpeed p6 = 5.5" and w6: "\<bar>p_wallDir p6\<bar> \<le> 1"
    using assms by (simp_all add: p6_def p3_def p2_def p1_def)
  have b3: "\<bar>p_velX p3\<bar> \<le> 6.37"
  proof (cases "slideStarts inp p1")
    case True
    from update_slideStart_boost [OF True] have "p_sliding p2" "\<bar>p_velX p2\<bar> \<le> 6.5"
      using b1 by (simp_all add: p2_def)
    then show ?thesis by (simp add: p3_def update_sliding_velX abs_mult)
  next
    case False
    then have "p2 = p1" by (simp add: p2_def update_slideStart_idle)
    then show ?thesis using b1 by (simp add: p3_def update_sliding_velX abs_mult)
  qed
  have b3': "\<bar>p_velX p3\<bar> \<le> 5.5" if "\<not> slideStarts inp p1"
  proof -
    from that have "p2 = p1" by (simp add: p2_def update_slideStart_idle)
    then show ?thesis using b1 by (simp add: p3_def update_sliding_velX abs_mult)
  qed
  have jump: "\<bar>p_velX (update_jump p6)\<bar> \<le> max \<bar>p_velX p3\<bar> 4.4"
    using update_jump_velX [of p6] wallJump_speed [OF w6] by (auto simp: v6 m6)
  show "\<bar>p_velX (snd (update_velocity dt inp p))\<bar> \<le> 6.37"
    using jump b3 by (simp add: res)
  show "\<bar>p_velX (snd (update_velocity dt inp p))\<bar> \<le> 5.5"
    if "\<not> slideStarts inp (update_move inp p)"
    using jump b3' that by (simp add: res p1_def)
qed

lemma update_velocity_jumpForce:
  "p_jumpForce (snd (update_velocity dt inp p)) = p_jumpForce p"
proof -
  have 1: "p_jumpForce (update_move inp q) = p_jumpForce q" for q
    by (simp add: update_move_def Let_def)
  have 2: "p_jumpForce (update_slideStart inp q) = p_jumpForce q" for q
    by (simp add: update_slideStart_def Let_def)
  have 3: "p_jumpForce (update_sliding dt inp q) = p_jumpForce q" for q
    by (simp add: update_sliding_def Let_def)
  have 4: "p_jumpForce (update_dive inp q) = p_jumpForce q" for q
    by (simp add: update_dive_def)
  have 5: "p_jumpForce (update_coyote dt q) = p_jumpForce q" for q
    by (simp add: update_coyote_def)
  have 6: "p_jumpForce (snd (update_jumpBuffer dt (inp, q))) = p_jumpForce q" for q
    by (simp add: update_jumpBuffer_def Let_def split: prod.splits)
  have 7: "p_jumpForce (update_jump q) = p_jumpForce q" for q
    by (simp add: update_jump_def)
  have 8: "p_jumpForce (update_gravity q) = p_jumpForce q" for q
    by (simp add: update_gravity_def Let_def)
  have "snd (update_velocity dt inp p) =
        update_gravity (update_jump (snd (update_jumpBuffer dt
          (inp, update_coyote dt (update_dive inp (update_sliding dt inp
             (update_slideStart inp (update_move inp p))))))))"
    by (simp add: update_velocity_def Let_def split: prod.splits)
  then show ?thesis by (simp only: 1 2 3 4 5 6 7 8)
qed

text \<open>What \<^verbatim>\<open>update\<close> leaves in the player after \<^verbatim>\<open>collide\<close> has returned.\<close>

lemma Player_update_result:
  assumes "Player_update dt inp p L = Some t" and "update_velocity dt inp p = (inp', p8)"
  obtains st where "collide L p8 (p_x p8 + p_velX p8) (p_y p8 + p_velY p8) = Some st"
    and "t_level t = cs_level st"
    and "p_velX (t_player t) = p_velX (cs_player st)"
    and "p_velY (t_player t) =
           (if c_bounce (cs_coll st) then - p_jumpForce (cs_player st) * 1.5
            else p_velY (cs_player st))"
proof -
  from assms obtain st
    where st: "collide L p8 (p_x p8 + p_velX p8) (p_y p8 + p_velY p8) = Some st"
    by (simp add: Player_update_def Let_def split: option.splits)
  define p9 where "p9 = (cs_player st)\<lparr>p_x := c_x (cs_coll st), p_y := c_y (cs_coll st),
      p_onGround := c_onGround (cs_coll st), p_onWall := c_onWall (cs_coll st),
      p_wallDir := c_wallDir (cs_coll st)\<rparr>"
  define p10 where "p10 =
    (if c_bounce (cs_coll st) then p9\<lparr>p_velY := - p_jumpForce p9 * 1.5, p_dive := False\<rparr> else p9)"
  have t: "t_level t = cs_level st \<and> (t_player t = p10 \<or> t_player t = p10\<lparr>p_dive := False\<rparr>)"
    using assms st unfolding Player_update_def Let_def p10_def p9_def
    by (simp split: if_splits) (auto)
  have "p_velX p10 = p_velX (cs_player st)"
    and "p_velY p10 =
           (if c_bounce (cs_coll st) then - p_jumpForce (cs_player st) * 1.5
            else p_velY (cs_player st))"
    by (simp_all add: p10_def p9_def)
  with t st that show thesis by auto
qed

lemma slide_tick: "Player_update 1 keysRightDown runner flatLevel = Some slidTick"
  by code_simp

text \<open>
  C1, as the code has it. Take a player with the constructor's \<^verbatim>\<open>maxSpeed\<close> and
  \<^verbatim>\<open>jumpForce\<close> and a wall direction between \<open>- 1\<close> and \<open>1\<close>, and a tick of
  \<^verbatim>\<open>update\<close> that returns. Right after the speed cap, \<open>|vx| \<le> 5.5\<close>. After gravity and at
  the end of the tick, \<open>vy \<le> 15\<close>. On a tick that does not initiate a slide, \<open>|vx| \<le> 5.5\<close>
  after gravity and at the end of the tick. On every tick, \<open>|vx| \<le> 6.37\<close> there: the boost
  of a slide comes after the cap, and the slide decay of the same tick takes it from at most
  6.5 to at most \<open>6.5 * 0.98\<close>.
\<close>

theorem velocity_bounds:
  assumes "p_maxSpeed p = 5.5" and "p_jumpForce p = 9" and "\<bar>p_wallDir p\<bar> \<le> 1"
    and "Player_update dt inp p L = Some t"
  shows "\<bar>p_velX (update_move inp p)\<bar> \<le> 5.5 \<and>
         p_velY (snd (update_velocity dt inp p)) \<le> 15 \<and>
         p_velY (t_player t) \<le> 15 \<and>
         \<bar>p_velX (snd (update_velocity dt inp p))\<bar> \<le> 6.37 \<and>
         \<bar>p_velX (t_player t)\<bar> \<le> 6.37 \<and>
         (\<not> slideStarts inp (update_move inp p) \<longrightarrow>
            \<bar>p_velX (snd (update_velocity dt inp p))\<bar> \<le> 5.5 \<and> \<bar>p_velX (t_player t)\<bar> \<le> 5.5)"
proof -
  obtain inp' p8 where uv: "update_velocity dt inp p = (inp', p8)"
    by (cases "update_velocity dt inp p")
  from Player_update_result [OF assms(4) uv] obtain st
    where st: "collide L p8 (p_x p8 + p_velX p8) (p_y p8 + p_velY p8) = Some st"
      and vx: "p_velX (t_player t) = p_velX (cs_player st)"
      and vy: "p_velY (t_player t) =
                 (if c_bounce (cs_coll st) then - p_jumpForce (cs_player st) * 1.5
                  else p_velY (cs_player st))"
    by blast
  have sl: "slowed p8 (cs_player st)" using collide_slowed [OF st] .
  have jf: "p_jumpForce p8 = 9"
    using update_velocity_jumpForce [of dt inp p] assms(2) by (simp add: uv)
  have jf': "p_jumpForce (cs_player st) = 9"
    using sl jf by (simp add: slowed_def)
  have y8: "p_velY p8 \<le> 15" using update_velocity_velY [of dt inp p] by (simp add: uv)
  have x8: "\<bar>p_velX p8\<bar> \<le> 6.37"
    using update_velocity_velX(1) [OF assms(1,3), of dt inp] by (simp add: uv)
  have x8': "\<bar>p_velX p8\<bar> \<le> 5.5" if "\<not> slideStarts inp (update_move inp p)"
    using update_velocity_velX(2) [OF assms(1,3) that, of dt] by (simp add: uv)
  have ex: "\<bar>p_velX (t_player t)\<bar> \<le> \<bar>p_velX p8\<bar>"
    using sl by (auto simp: vx slowed_def)
  have ey: "p_velY (t_player t) \<le> 15"
    using sl y8 jf' by (auto simp: vy slowed_def)
  have m: "\<bar>p_velX (update_move inp p)\<bar> \<le> 5.5"
    using update_move_bound [OF assms(1)] .
  have e1: "\<bar>p_velX (t_player t)\<bar> \<le> 6.37" using ex x8 by linarith
  have e2: "\<bar>p_velX (t_player t)\<bar> \<le> 5.5" if "\<not> slideStarts inp (update_move inp p)"
    using ex x8' [OF that] by linarith
  show ?thesis
    using m y8 x8 x8' ey e1 e2 by (simp add: uv)
qed

theorem velocity_bounds_witness:
  "p_maxSpeed runner = 5.5 \<and> p_jumpForce runner = 9 \<and> \<bar>p_wallDir runner\<bar> \<le> 1 \<and>
   Player_update 1 keysRightDown runner flatLevel = Some slidTick \<and>
   p_velY (t_player slidTick) \<le> 15 \<and> \<bar>p_velX (t_player slidTick)\<bar> \<le> 6.37 \<and>
   \<bar>p_velX (update_move keysRightDown runner)\<bar> \<le> 5.5"
proof -
  have h: "p_maxSpeed runner = 5.5" "p_jumpForce runner = 9" "\<bar>p_wallDir runner\<bar> \<le> 1"
    by (simp_all add: runner_def Player_new_def)
  from velocity_bounds [OF h slide_tick] h slide_tick show ?thesis by simp
qed

text \<open>
  C1, as the claim has it, fails on a tick that initiates a slide. The runner of the example,
  on the ground at \<open>vx = 5.5\<close> with right and down held, ends the tick at
  \<open>vx = 6.5 * 0.98 = 6.37\<close>, and has moved by that much.
\<close>

theorem slide_boost_exceeds_cap:
  "slideStarts keysRightDown (update_move keysRightDown runner) \<and>
   p_velX (snd (update_velocity 1 keysRightDown runner)) = 6.37 \<and>
   Player_update 1 keysRightDown runner flatLevel = Some slidTick \<and>
   p_velX (t_player slidTick) = 6.37 \<and>
   p_x (t_player slidTick) - p_x runner = 6.37 \<and>
   \<not> \<bar>p_velX (t_player slidTick)\<bar> \<le> 5.5"
proof -
  have "slideStarts keysRightDown (update_move keysRightDown runner)" by code_simp
  moreover have "p_velX (snd (update_velocity 1 keysRightDown runner)) = 6.37" by code_simp
  moreover have "p_velX (t_player slidTick) = 6.37" by code_simp
  moreover have "p_x (t_player slidTick) - p_x runner = 6.37" by code_simp
  ultimately show ?thesis using slide_tick by simp
qed

subsection \<open>The velocity of a tick and dt\<close>

text \<open>
  With down not held, no slide under way, no jump requested and none buffered, all that a
  tick does to the velocity is the horizontal input, the coyote timer and gravity.
\<close>

lemma update_velocity_plain:
  assumes "\<not> i_down inp" and "\<not> p_sliding p" and "\<not> i_jumpRequested inp"
    and "p_jumpBuffer p \<le> 0"
  shows "snd (update_velocity dt inp p) = update_gravity (update_coyote dt (update_move inp p))"
proof -
  define p1 where "p1 = update_move inp p"
  have f1: "\<not> p_sliding p1" "p_jumpBuffer p1 \<le> 0"
    using assms by (simp_all add: p1_def update_move_def Let_def)
  have s2: "update_slideStart inp p1 = p1"
    using assms(1) by (simp add: update_slideStart_def slideStarts_def)
  have s3: "update_sliding dt inp p1 = p1"
    using f1 by (simp add: update_sliding_def)
  have s4: "update_dive inp p1 = p1"
    using assms(1) by (simp add: update_dive_def)
  define p5 where "p5 = update_coyote dt p1"
  have f5: "p_jumpBuffer p5 \<le> 0"
    using f1 by (simp add: p5_def update_coyote_def)
  have s6: "update_jumpBuffer dt (inp, p5) = (inp, p5)"
    using assms(3) f5 by (simp add: update_jumpBuffer_def consumeJump_def)
  have s7: "update_jump p5 = p5"
    using f5 by (simp add: update_jump_def)
  show ?thesis
    unfolding update_velocity_def Let_def p1_def [symmetric] s2 s3 s4 p5_def [symmetric] s6
    by (simp add: s7)
qed

text \<open>
  What such a tick does to the velocity. With a direction \<open>d\<close> of \<open>- 1\<close> or \<open>1\<close> held,
  whatever \<open>dt\<close> is, the horizontal speed becomes \<open>vx + d * 0.4\<close>, capped to
  \<open>[- 5.5, 5.5]\<close>, and the vertical speed becomes \<open>vy + 0.45\<close>, capped at 15: the
  increments are per call of \<^verbatim>\<open>update\<close>, and \<open>dt\<close>, which scales the slide, coyote and
  jump-buffer timers, does not scale them.
\<close>

theorem velocity_increments_ignore_dt:
  assumes "p_acc p = 0.4" and "p_maxSpeed p = 5.5" and "p_gravity p = 0.45"
    and "\<not> i_down inp" and "\<not> p_sliding p" and "\<not> i_jumpRequested inp"
    and "p_jumpBuffer p \<le> 0"
    and "d = (if i_left inp then - 1 else 0) + (if i_right inp then 1 else 0)" and "d \<noteq> 0"
  shows "p_velX (snd (update_velocity dt inp p)) = max (- 5.5) (min 5.5 (p_velX p + d * 0.4)) \<and>
         p_velY (snd (update_velocity dt inp p)) = min 15 (p_velY p + 0.45)"
proof -
  have x: "p_velX (update_move inp p) = max (- 5.5) (min 5.5 (p_velX p + d * 0.4))"
    using assms(1,2,8,9) by (auto simp: update_move_def Let_def)
  have "p_velX (update_gravity (update_coyote dt (update_move inp p))) =
        p_velX (update_move inp p)"
    by simp
  moreover have "p_velY (update_gravity (update_coyote dt (update_move inp p))) =
                 min 15 (p_velY p + 0.45)"
    using assms(3) by (auto simp: update_gravity_def update_coyote_def update_move_def Let_def)
  ultimately show ?thesis
    unfolding update_velocity_plain [OF assms(4-7)] x by simp
qed

theorem velocity_increments_ignore_dt_witness:
  "p_velX (snd (update_velocity 2 keysRight (Player_new 0 0 ''#ffffff''))) = 0.4 \<and>
   p_velY (snd (update_velocity 2 keysRight (Player_new 0 0 ''#ffffff''))) = 0.45"
proof -
  have h: "p_acc (Player_new 0 0 ''#ffffff'') = 0.4" "p_maxSpeed (Player_new 0 0 ''#ffffff'') = 5.5"
    "p_gravity (Player_new 0 0 ''#ffffff'') = 0.45" "\<not> i_down keysRight"
    "\<not> p_sliding (Player_new 0 0 ''#ffffff'')" "\<not> i_jumpRequested keysRight"
    "p_jumpBuffer (Player_new 0 0 ''#ffffff'') \<le> 0"
    "(1::real) = (if i_left keysRight then - 1 else 0) + (if i_right keysRight then 1 else 0)"
    "(1::real) \<noteq> 0"
    by (simp_all add: Player_new_def keysRight_def)
  from velocity_increments_ignore_dt [OF h, of 2] show ?thesis
    by (simp add: Player_new_def)
qed

text \<open>
  C2. The claim is what the comments of \<^verbatim>\<open>update\<close> and \<^verbatim>\<open>loop\<close> promise (\<open>dt\<close>
  ``keeps motion consistent regardless of frame rate''), and the code does not do it: a player
  at rest with right held, on a tick with \<open>dt = 2\<close>, gains \<open>0.4\<close> and \<open>0.45\<close>, not
  \<open>0.4 * 2\<close> and \<open>0.45 * 2\<close>.
\<close>

theorem velocity_increments_not_scaled:
  "p_velX (snd (update_velocity 2 keysRight (Player_new 0 0 ''#ffffff''))) \<noteq> 0 + 1 * 0.4 * 2 \<and>
   p_velY (snd (update_velocity 2 keysRight (Player_new 0 0 ''#ffffff''))) \<noteq> 0 + 0.45 * 2"
proof -
  have "p_velX (snd (update_velocity 2 keysRight (Player_new 0 0 ''#ffffff''))) = 0.4"
    by code_simp
  moreover have "p_velY (snd (update_velocity 2 keysRight (Player_new 0 0 ''#ffffff''))) = 0.45"
    by code_simp
  ultimately show ?thesis by simp
qed

subsection \<open>The game: templates and best times\<close>

lemma neverWorse_refl: "neverWorse bt bt"
  by (simp add: neverWorse_def)

lemma neverWorse_trans: "neverWorse a b \<Longrightarrow> neverWorse b c \<Longrightarrow> neverWorse a c"
  unfolding neverWorse_def by (meson order_trans)

lemma startGame_keeps:
  assumes "startGame i now r g = Some g'"
  shows "g_levels g' = g_levels g" and "g_bestTimes g' = g_bestTimes g"
  using assms by (auto simp: startGame_def Let_def split: if_splits option.splits)

lemma startGame_level:
  assumes "startGame i now r g = Some g'"
  shows "\<exists>L. g_level g' = Some L \<and> Level_new (g_levels g ! g_currentLevelIndex g') r = Some L"
  using assms by (auto simp: startGame_def Let_def split: if_splits option.splits)

lemma resetLevel_index:
  assumes "resetLevel now r g = Some g'"
  shows "g_currentLevelIndex g' =
           (if g_currentLevelIndex g < length (g_levels g) then g_currentLevelIndex g else 0)"
  using assms by (auto simp: resetLevel_def startGame_def Let_def split: if_splits option.splits)

lemma completeLevel_levels [simp]: "g_levels (completeLevel now g) = g_levels g"
  by (simp add: completeLevel_def Let_def)

lemma completeLevel_bestTimes:
  "g_bestTimes (completeLevel now g) =
     (\<lambda>K. if K = g_currentLevelIndex g \<and>
              (case g_bestTimes g K of
                 None \<Rightarrow> True
               | Some b \<Rightarrow> (now - g_levelStartTime g) / 1000 < b)
           then Some ((now - g_levelStartTime g) / 1000)
           else g_bestTimes g K)"
  by (auto simp: completeLevel_def Let_def fun_eq_iff split: option.splits)

lemma completeLevel_neverWorse: "neverWorse (g_bestTimes g) (g_bestTimes (completeLevel now g))"
  unfolding neverWorse_def
proof (intro allI impI)
  fix K b
  assume b: "g_bestTimes g K = Some b"
  define ft where "ft = (now - g_levelStartTime g) / 1000"
  have new: "g_bestTimes (completeLevel now g) K =
             (if K = g_currentLevelIndex g \<and> ft < b then Some ft else Some b)"
    unfolding completeLevel_bestTimes ft_def [symmetric] by (simp only: b option.case)
  show "\<exists>b'. g_bestTimes (completeLevel now g) K = Some b' \<and> b' \<le> b"
  proof (cases "K = g_currentLevelIndex g \<and> ft < b")
    case True
    then have "g_bestTimes (completeLevel now g) K = Some ft" "ft \<le> b"
      using new by simp_all
    then show ?thesis by blast
  next
    case False
    then have "g_bestTimes (completeLevel now g) K = Some b"
      using new by (simp only: if_False)
    then show ?thesis by simp
  qed
qed

lemma keydown_keeps [simp]:
  "g_levels (keydown k now g) = g_levels g"
  "g_bestTimes (keydown k now g) = g_bestTimes g"
  by (simp_all add: keydown_def togglePause_def Let_def)

lemma keyup_keeps [simp]:
  "g_levels (keyup k g) = g_levels g"
  "g_bestTimes (keyup k g) = g_bestTimes g"
  by (simp_all add: keyup_def Let_def)

lemma loop_keeps:
  assumes "loop now clock r g = Some g'"
  shows "g_levels g' = g_levels g \<and> neverWorse (g_bestTimes g) (g_bestTimes g')"
proof (cases "g_state g = Playing")
  case False
  then show ?thesis using assms by (auto simp: loop_def Let_def neverWorse_refl)
next
  case True
  define dt where "dt = min 33 (now - g_lastFrame g) / 16.6667"
  define g2 where "g2 = g\<lparr>g_lastFrame := now, g_currentTime := (now - g_levelStartTime g) / 1000\<rparr>"
  from assms True obtain L p where L: "g_level g = Some L" and p: "g_player g = Some p"
    by (cases "g_level g"; cases "g_player g") (simp_all add: loop_def Let_def)
  from assms True L p obtain t
    where t: "Player_update dt (g_input g) p (updateHazards dt L) = Some t"
    by (cases "Player_update dt (g_input g) p (updateHazards dt L)")
       (simp_all add: loop_def Let_def dt_def)
  define g3 where "g3 = g2\<lparr>g_input := t_input t, g_player := Some (t_player t),
                                  g_level := Some (t_level t)\<rparr>"
  have g3: "g_levels g3 = g_levels g" "g_bestTimes g3 = g_bestTimes g"
    by (simp_all add: g3_def g2_def)
  show ?thesis
  proof (cases "t_signal t")
    case Died
    have "startGame (int (g_currentLevelIndex g3)) clock r g3 = Some g'"
      using assms True L p t Died
      by (simp add: loop_def Let_def dt_def g3_def g2_def resetLevel_def)
    from startGame_keeps [OF this] show ?thesis by (simp add: g3 neverWorse_refl)
  next
    case Won
    have "g' = completeLevel clock g3"
      using assms True L p t Won by (simp add: loop_def Let_def dt_def g3_def g2_def)
    then show ?thesis using completeLevel_neverWorse [of g3 clock] by (simp add: g3)
  next
    case (Alive collected)
    have "g' = addCoin g3 \<or> g' = g3"
      using assms True L p t Alive
      by (cases collected) (auto simp: loop_def Let_def dt_def g3_def g2_def)
    then show ?thesis by (auto simp: g3 addCoin_def neverWorse_refl)
  qed
qed

lemma step_keeps:
  assumes "step e g = Some g'"
  shows "g_levels g' = g_levels g \<and> neverWorse (g_bestTimes g) (g_bestTimes g')"
proof (cases e)
  case (KeyDown k now)
  then have "g' = keydown k now g" using assms by simp
  then show ?thesis by (simp add: neverWorse_refl)
next
  case (KeyUp k)
  then have "g' = keyup k g" using assms by simp
  then show ?thesis by (simp add: neverWorse_refl)
next
  case (Frame now clock r)
  then have "loop now clock r g = Some g'" using assms by simp
  then show ?thesis by (rule loop_keeps)
next
  case (Start i now r)
  then have "startGame i now r g = Some g'" using assms by simp
  from startGame_keeps [OF this] show ?thesis by (simp add: neverWorse_refl)
next
  case (Retry now r)
  then have "startGame (int (g_currentLevelIndex g)) now r g = Some g'"
    using assms by (simp add: resetLevel_def)
  from startGame_keeps [OF this] show ?thesis by (simp add: neverWorse_refl)
next
  case (Next now r)
  then have n: "nextLevel now r g = Some g'" using assms by simp
  show ?thesis
  proof (cases "g_currentLevelIndex g + 1 < length (g_levels g)")
    case True
    then have "startGame (int (g_currentLevelIndex g + 1)) now r g = Some g'"
      using n by (simp add: nextLevel_def Let_def)
    from startGame_keeps [OF this] show ?thesis by (simp add: neverWorse_refl)
  next
    case False
    then have "g' = exitToMenu g" using n by (simp add: nextLevel_def Let_def)
    then show ?thesis by (simp add: exitToMenu_def showMenu_def neverWorse_refl)
  qed
next
  case (Resume now)
  then have "g' = togglePause (Some False) now g" using assms by simp
  then show ?thesis by (simp add: togglePause_def neverWorse_refl)
next
  case Exit
  then have "g' = exitToMenu g" using assms by simp
  then show ?thesis by (simp add: exitToMenu_def showMenu_def neverWorse_refl)
next
  case OpenLevelSelect
  then have "g' = showLevelSelect g" using assms by simp
  then show ?thesis by (simp add: showLevelSelect_def neverWorse_refl)
next
  case OpenSkins
  then have "g' = showSkins g" using assms by simp
  then show ?thesis by (simp add: showSkins_def neverWorse_refl)
qed

lemma run_keeps:
  "run es g = Some g' \<Longrightarrow>
   g_levels g' = g_levels g \<and> neverWorse (g_bestTimes g) (g_bestTimes g')"
proof (induction es arbitrary: g)
  case Nil
  then show ?case by (simp add: neverWorse_refl)
next
  case (Cons e es)
  from Cons.prems obtain g1 where g1: "step e g = Some g1" and rest: "run es g1 = Some g'"
    by (auto split: option.splits)
  have 1: "g_levels g1 = g_levels g" "neverWorse (g_bestTimes g) (g_bestTimes g1)"
    using step_keeps [OF g1] by simp_all
  have 2: "g_levels g' = g_levels g1" "neverWorse (g_bestTimes g1) (g_bestTimes g')"
    using Cons.IH [OF rest] by simp_all
  show ?case
    using 1(1) 2(1) neverWorse_trans [OF 1(2) 2(2)] by simp
qed

text \<open>
  C7. Over any run of the game (keys, frames and buttons, with every completion that the
  frames bring), a level that has a best time keeps one, and it is never larger than
  it was. And \<^verbatim>\<open>completeLevel\<close> writes the finish time for the current level when that
  level has no best time or the finish time is strictly smaller than it, and leaves every other
  entry, and the entry of the current level otherwise, as it was.
\<close>

theorem bestTimes_never_increase:
  assumes "run es g = Some g'"
  shows "(\<forall>K b. g_bestTimes g K = Some b \<longrightarrow> (\<exists>b'. g_bestTimes g' K = Some b' \<and> b' \<le> b)) \<and>
         g_bestTimes (completeLevel now g') =
           (\<lambda>K. if K = g_currentLevelIndex g' \<and>
                    (case g_bestTimes g' K of
                       None \<Rightarrow> True
                     | Some b \<Rightarrow> (now - g_levelStartTime g') / 1000 < b)
                 then Some ((now - g_levelStartTime g') / 1000)
                 else g_bestTimes g' K)"
  using run_keeps [OF assms] completeLevel_bestTimes [of now g']
  by (simp add: neverWorse_def)

lemma Level_new_Some: "tmpl \<noteq> [] \<Longrightarrow> \<exists>L. Level_new tmpl r = Some L"
  by (cases tmpl) (simp_all add: Level_new_def)

text \<open>
  C8. Over any run of the game the stored templates stay what they were: play writes to the
  level instance only. A reset after the run then loads the current level (the first one if
  the index is out of range) with the tile map and the coins, collected flags included, of a
  fresh \<^verbatim>\<open>new Level\<close> of the stored template, whatever the random streams are.
\<close>

theorem reset_restores_template:
  assumes "run es g = Some g'" and "resetLevel now r g' = Some g''"
  shows "g_levels g' = g_levels g \<and> g_levels g'' = g_levels g \<and>
         g_currentLevelIndex g'' =
           (if g_currentLevelIndex g' < length (g_levels g) then g_currentLevelIndex g' else 0) \<and>
         (\<exists>L Lf. g_level g'' = Some L \<and>
                  Level_new (g_levels g ! g_currentLevelIndex g'') r' = Some Lf \<and>
                  l_map L = l_map Lf \<and> l_coins L = l_coins Lf)"
proof -
  have lv: "g_levels g' = g_levels g" using run_keeps [OF assms(1)] by simp
  have sg: "startGame (int (g_currentLevelIndex g')) now r g' = Some g''"
    using assms(2) by (simp add: resetLevel_def)
  from startGame_level [OF sg] obtain L
    where L: "g_level g'' = Some L"
      "Level_new (g_levels g ! g_currentLevelIndex g'') r = Some L"
    by (auto simp: lv)
  then have "g_levels g ! g_currentLevelIndex g'' \<noteq> []"
    by (auto simp: Level_new_def)
  from Level_new_Some [OF this] obtain Lf
    where Lf: "Level_new (g_levels g ! g_currentLevelIndex g'') r' = Some Lf" by blast
  have "sameButSpeedDir L Lf" using Level_new_related [OF L(2) Lf] .
  then have "l_map L = l_map Lf" "l_coins L = l_coins Lf"
    by (simp_all add: sameButSpeedDir_def)
  with L Lf lv startGame_keeps(1) [OF sg] resetLevel_index [OF assms(2)]
  show ?thesis by simp
qed


lemma Some_the:
  assumes "case x of None \<Rightarrow> False | Some y \<Rightarrow> P y"
  shows "x = Some (the x)" and "P (the x)"
  using assms by (cases x; simp)+

text \<open>
  In the example the level is completed in 2 seconds, then in 3 (the best stays 2), then in 1
  (the best becomes 1).
\<close>

lemma slower_win:
  "case run slowerWin afterFirstWin of None \<Rightarrow> False
   | Some g \<Rightarrow> g_bestTimes afterFirstWin 0 = Some 2 \<and> g_state g = Complete \<and>
       (8000 - g_levelStartTime g) / 1000 = 3 \<and> g_bestTimes g 0 = Some 2"
  by code_simp

lemma faster_win:
  "case run fasterWin afterSlowerWin of None \<Rightarrow> False
   | Some g \<Rightarrow> g_state g = Complete \<and> g_bestTimes g 0 = Some 1"
  by code_simp

theorem bestTimes_never_increase_witness:
  "run slowerWin afterFirstWin = Some afterSlowerWin \<and>
   g_bestTimes afterFirstWin 0 = Some 2 \<and>
   (8000 - g_levelStartTime afterSlowerWin) / 1000 = 3 \<and>
   g_bestTimes afterSlowerWin 0 = Some 2 \<and>
   (\<exists>b'. g_bestTimes afterSlowerWin 0 = Some b' \<and> b' \<le> 2) \<and>
   run fasterWin afterSlowerWin = Some afterFasterWin \<and>
   g_bestTimes afterFasterWin 0 = Some 1"
proof -
  note s = Some_the [OF slower_win, folded afterSlowerWin_def]
  note f = Some_the [OF faster_win, folded afterFasterWin_def]
  from bestTimes_never_increase [OF s(1), of 0] s(2)
  have "\<exists>b'. g_bestTimes afterSlowerWin 0 = Some b' \<and> b' \<le> 2" by blast
  with s f show ?thesis by simp
qed

text \<open>
  In the example the dive collects the coin and breaks the tile; the reset brings both back.
\<close>

lemma dive_run:
  "case run diveRun (demoGame diveTemplate) of None \<Rightarrow> False
   | Some g \<Rightarrow>
       map_option l_map (g_level g) = Some [''   '', ''   '', ''   '', ''###''] \<and>
       map_option l_coins (g_level g) =
         Some [\<lparr>coin_x = 60, coin_y = 60, coin_collected = True\<rparr>] \<and>
       g_sessionCoins g = 1"
  by code_simp

lemma dive_reset:
  "case resetLevel 200 (\<lambda>n. 0) afterDive of None \<Rightarrow> False
   | Some g \<Rightarrow>
       map_option l_map (g_level g) = Some [''   '', ''   '', '' X '', ''###''] \<and>
       map_option l_coins (g_level g) =
         Some [\<lparr>coin_x = 60, coin_y = 60, coin_collected = False\<rparr>] \<and>
       g_sessionCoins g = 0"
  by code_simp

theorem reset_restores_template_witness:
  "run diveRun (demoGame diveTemplate) = Some afterDive \<and>
   resetLevel 200 (\<lambda>n. 0) afterDive = Some afterReset \<and>
   map_option l_map (g_level afterDive) = Some [''   '', ''   '', ''   '', ''###''] \<and>
   map_option l_coins (g_level afterDive) =
     Some [\<lparr>coin_x = 60, coin_y = 60, coin_collected = True\<rparr>] \<and>
   map_option l_map (g_level afterReset) = Some [''   '', ''   '', '' X '', ''###''] \<and>
   map_option l_coins (g_level afterReset) =
     Some [\<lparr>coin_x = 60, coin_y = 60, coin_collected = False\<rparr>] \<and>
   map_option l_map (g_level afterReset) = map_option l_map (Level_new diveTemplate (\<lambda>n. 1 / 2)) \<and>
   map_option l_coins (g_level afterReset) = map_option l_coins (Level_new diveTemplate (\<lambda>n. 1 / 2))"
proof -
  note d = Some_the [OF dive_run, folded afterDive_def]
  note r = Some_the [OF dive_reset, folded afterReset_def]
  have lv: "g_levels (demoGame diveTemplate) = [diveTemplate]"
    by (simp add: demoGame_def)
  from reset_restores_template [OF d(1) r(1), of "\<lambda>n. 1 / 2"]
  have "g_currentLevelIndex afterReset = 0 \<and>
        (\<exists>L Lf. g_level afterReset = Some L \<and> Level_new diveTemplate (\<lambda>n. 1 / 2) = Some Lf \<and>
                 l_map L = l_map Lf \<and> l_coins L = l_coins Lf)"
    by (auto simp: lv split: if_splits)
  then have "map_option l_map (g_level afterReset) = map_option l_map (Level_new diveTemplate (\<lambda>n. 1 / 2))"
    "map_option l_coins (g_level afterReset) = map_option l_coins (Level_new diveTemplate (\<lambda>n. 1 / 2))"
    by auto
  with d r show ?thesis by simp
qed

end
